theory Spec2Isabelle
  imports Main
begin

section \<open>Python values: exceptions, truthiness, strings\<close>

text \<open>
  The repository is a Python class \<open>Bucket\<close> (\<open>src/bucket.py\<close>) that wraps a boto3 S3 client.
  Every method is embedded as a function that takes the state of the world (the remote
  store, the local files, what has been printed) and returns the method's outcome with
  the new world. An outcome is \<open>Inr v\<close> when the method returns \<open>v\<close> and \<open>Inl e\<close> when the
  exception \<open>e\<close> leaves the method.
\<close>

datatype exn =
    ClientError string
  | BotoCoreError string
  | FileNotFoundError
  | UnknownTimeZoneError
  | IndexError
  | TypeError
  | AttributeError
  | PyException string

text \<open>
  \<open>ClientError code\<close> is botocore's \<open>ClientError\<close>, the only exception with a \<open>response\<close>
  attribute; \<open>code\<close> is \<open>e.response['Error']['Code']\<close>. \<open>BotoCoreError\<close> stands for the
  client's other failures (no credentials, no connection), which have no such attribute.
  \<open>response_code e\<close> is the expression \<open>e.response['Error']['Code']\<close> of the handlers in
  \<open>get_file_metadata\<close> and \<open>move_file\<close>: on any exception but a \<open>ClientError\<close> the attribute
  lookup itself raises \<open>AttributeError\<close>.
\<close>

fun response_code :: "exn \<Rightarrow> exn + string" where
  "response_code (ClientError code) = Inr code"
| "response_code e = Inl AttributeError"

text \<open>\<open>s.endswith(suffix)\<close>, \<open>s.startswith(p)\<close> and \<open>os.path.basename\<close> on POSIX paths.\<close>

definition endswith :: "string \<Rightarrow> string \<Rightarrow> bool" where
  "endswith s suffix =
     (length suffix \<le> length s \<and> drop (length s - length suffix) s = suffix)"

definition startswith :: "string \<Rightarrow> string \<Rightarrow> bool" where
  "startswith s p = (take (length p) s = p)"

definition basename :: "string \<Rightarrow> string" where
  "basename p = rev (takeWhile (\<lambda>c. c \<noteq> CHR ''/'') (rev p))"

text \<open>\<open>s.replace(old, new, 1)\<close>: the leftmost occurrence of \<open>old\<close> in \<open>s\<close> is replaced.\<close>

fun py_replace1 :: "string \<Rightarrow> string \<Rightarrow> string \<Rightarrow> string" where
  "py_replace1 old new [] = (if old = [] then new else [])"
| "py_replace1 old new (c # cs) =
     (if take (length old) (c # cs) = old then new @ drop (length old) (c # cs)
      else c # py_replace1 old new cs)"

text \<open>
  The statement \<open>name = name if name.endswith('/') else name + '/'\<close>, which
  \<open>create_folder\<close>, \<open>delete_folder_data\<close> and \<open>move_folder\<close> run on their folder arguments.
\<close>

definition with_slash :: "string \<Rightarrow> string" where
  "with_slash name = (if endswith name ''/'' then name else name @ ''/'')"

section \<open>The store and the rest of the world\<close>

text \<open>
  Modelled from the spec: boto3, the S3 service, the local file system and \<open>pytz\<close>, which
  are not code of the repository. The model follows section 6 of the specification (the
  Store Connector API: head-object, list-objects with prefix, continuation token and
  max-keys, put-object, copy-object, delete-object, delete-objects,
  generate-presigned-url) and the documented behaviour of S3: a listing omits \<open>Contents\<close>
  when it returns no key and is served in pages, a copy of a missing key is refused with
  \<open>NoSuchKey\<close>, a head of a missing key with \<open>404\<close>, and a delete of a missing key is not an
  error. The upload's progress callback only observes and is left out.
\<close>

record datetime =
  instant :: int
  tzname :: string

record metadata =
  LastModified :: datetime
  ContentLength :: nat
  ContentType :: string
  ETag :: string

text \<open>
  A stored object, and the entry a listing returns for it: the four metadata fields, the
  key and the content.
\<close>

record s3obj = metadata +
  Key :: string
  Body :: string

text \<open>The answer to head-object has more fields than the four the Bucket keeps.\<close>

record head_output = metadata +
  AcceptRanges :: string

record list_request =
  Prefix :: "string option"
  ContinuationToken :: "string option"
  MaxKeys :: "nat option"

record list_response =
  Contents :: "s3obj list option"
  IsTruncated :: bool
  NextContinuationToken :: "string option"

datatype request =
    HeadObject string
  | ListObjectsV2 list_request
  | PutObject string
  | UploadFile string string
  | CopyObject string string
  | DeleteObject string
  | DeleteObjects "string list"
  | GeneratePresignedUrl string nat

text \<open>
  One line of output per \<open>print\<close> statement of \<open>src/bucket.py\<close> and \<open>src/timezone.py\<close>, with
  the values the statement interpolates.
\<close>

datatype msg =
    Msg_not_found
  | Msg_cannot_get_details exn
  | Msg_file string nat
  | Msg_file_missing
  | Msg_same_name_exists
  | Msg_uploaded
  | Msg_cannot_upload exn
  | Msg_blank
  | Msg_folder_present
  | Msg_folder_absent
  | Msg_no_such_folder "string option"
  | Msg_token_present
  | Msg_bucket_total nat
  | Msg_folder_total nat
  | Msg_list_exception exn
  | Msg_already_present string
  | Msg_folder_created string
  | Msg_cannot_create exn
  | Msg_folder_contains_files
  | Msg_deleted string
  | Msg_cannot_delete exn
  | Msg_moved string string
  | Msg_no_such_file
  | Msg_cannot_rename exn
  | Msg_cannot_link exn
  | Msg_empty_or_missing
  | Msg_folder_data_deleted string
  | Msg_cannot_delete_folder exn
  | Msg_cannot_move exn
  | Msg_cannot_convert exn

text \<open>
  The world. \<open>objects\<close> is the bucket in the store's natural order; \<open>page_size\<close> is the
  largest number of keys the store puts in one listing page; \<open>fault\<close> says which requests
  the store refuses and with what exception (a denied permission is
  \<open>ClientError ''AccessDenied''\<close>, a lost connection a \<open>BotoCoreError\<close>); \<open>requests\<close> is the
  log of the requests the client has made; \<open>files\<close> is the local file system; \<open>stdout\<close> is
  what has been printed; \<open>clock\<close> is the time stamp the store gives to what it writes.
\<close>

record world =
  objects :: "s3obj list"
  page_size :: nat
  fault :: "request \<Rightarrow> exn option"
  requests :: "request list"
  files :: "(string \<times> string) list"
  stdout :: "msg list"
  clock :: datetime

definition say :: "msg \<Rightarrow> world \<Rightarrow> world" where
  "say m w = w\<lparr>stdout := stdout w @ [m]\<rparr>"

definition logged :: "request \<Rightarrow> world \<Rightarrow> world" where
  "logged r w = w\<lparr>requests := requests w @ [r]\<rparr>"

definition lookup :: "string \<Rightarrow> s3obj list \<Rightarrow> s3obj option" where
  "lookup k objs = find (\<lambda>obj. Key obj = k) objs"

definition store_put :: "s3obj \<Rightarrow> s3obj list \<Rightarrow> s3obj list" where
  "store_put obj objs =
     (if lookup (Key obj) objs = None then objs @ [obj]
      else map (\<lambda>old. if Key old = Key obj then obj else old) objs)"

definition store_remove :: "string list \<Rightarrow> s3obj list \<Rightarrow> s3obj list" where
  "store_remove ks objs = filter (\<lambda>obj. Key obj \<notin> set ks) objs"

text \<open>The ETag is an opaque fingerprint of the content.\<close>

definition etag_of :: "string \<Rightarrow> string" where
  "etag_of body = ''etag-'' @ body"

definition new_object :: "world \<Rightarrow> string \<Rightarrow> string \<Rightarrow> s3obj" where
  "new_object w k body =
     \<lparr>LastModified = clock w, ContentLength = length body,
      ContentType = ''binary/octet-stream'', ETag = etag_of body, Key = k, Body = body\<rparr>"

text \<open>
  The continuation token is opaque to the client. The model's token for "the next page
  starts after \<open>n\<close> keys" is a string of \<open>n\<close> stars, so that it is a non-empty string
  whenever at least one key has been served.
\<close>

definition token_of :: "nat \<Rightarrow> string" where
  "token_of n = replicate n CHR ''*''"

definition under :: "string option \<Rightarrow> s3obj list \<Rightarrow> s3obj list" where
  "under p objs =
     (case p of None \<Rightarrow> objs | Some f \<Rightarrow> filter (\<lambda>obj. startswith (Key obj) f) objs)"

definition list_page :: "world \<Rightarrow> list_request \<Rightarrow> list_response" where
  "list_page w req =
     (let matching = under (Prefix req) (objects w);
          start = (case ContinuationToken req of None \<Rightarrow> 0 | Some t \<Rightarrow> length t);
          limit = (case MaxKeys req of None \<Rightarrow> page_size w | Some m \<Rightarrow> min m (page_size w));
          page = take limit (drop start matching);
          more = (start + limit < length matching)
      in \<lparr>Contents = (if page = [] then None else Some page),
          IsTruncated = more,
          NextContinuationToken = (if more then Some (token_of (start + limit)) else None)\<rparr>)"

subsection \<open>The client's methods\<close>

definition client_head_object :: "world \<Rightarrow> string \<Rightarrow> (exn + head_output) \<times> world" where
  "client_head_object w k =
     (let w1 = logged (HeadObject k) w in
      case fault w (HeadObject k) of
        Some e \<Rightarrow> (Inl e, w1)
      | None \<Rightarrow>
          (case lookup k (objects w) of
             None \<Rightarrow> (Inl (ClientError ''404''), w1)
           | Some obj \<Rightarrow>
               (Inr \<lparr>LastModified = LastModified obj, ContentLength = ContentLength obj,
                     ContentType = ContentType obj, ETag = ETag obj,
                     AcceptRanges = ''bytes''\<rparr>, w1)))"

definition client_list_objects_v2 ::
  "world \<Rightarrow> list_request \<Rightarrow> (exn + list_response) \<times> world" where
  "client_list_objects_v2 w req =
     (let w1 = logged (ListObjectsV2 req) w in
      case fault w (ListObjectsV2 req) of
        Some e \<Rightarrow> (Inl e, w1)
      | None \<Rightarrow> (Inr (list_page w req), w1))"

definition client_put_object :: "world \<Rightarrow> string \<Rightarrow> (exn + unit) \<times> world" where
  "client_put_object w k =
     (let w1 = logged (PutObject k) w in
      case fault w (PutObject k) of
        Some e \<Rightarrow> (Inl e, w1)
      | None \<Rightarrow> (Inr (), w1\<lparr>objects := store_put (new_object w k []) (objects w)\<rparr>))"

definition client_upload_file :: "world \<Rightarrow> string \<Rightarrow> string \<Rightarrow> (exn + unit) \<times> world" where
  "client_upload_file w file_path k =
     (let w1 = logged (UploadFile file_path k) w in
      case fault w (UploadFile file_path k) of
        Some e \<Rightarrow> (Inl e, w1)
      | None \<Rightarrow>
          (case map_of (files w) file_path of
             None \<Rightarrow> (Inl FileNotFoundError, w1)
           | Some body \<Rightarrow>
               (Inr (), w1\<lparr>objects := store_put (new_object w k body) (objects w)\<rparr>)))"

definition client_copy_object :: "world \<Rightarrow> string \<Rightarrow> string \<Rightarrow> (exn + unit) \<times> world" where
  "client_copy_object w source_key k =
     (let w1 = logged (CopyObject source_key k) w in
      case fault w (CopyObject source_key k) of
        Some e \<Rightarrow> (Inl e, w1)
      | None \<Rightarrow>
          (case lookup source_key (objects w) of
             None \<Rightarrow> (Inl (ClientError ''NoSuchKey''), w1)
           | Some obj \<Rightarrow>
               (Inr (), w1\<lparr>objects :=
                  store_put (obj\<lparr>Key := k, LastModified := clock w\<rparr>) (objects w)\<rparr>)))"

definition client_delete_object :: "world \<Rightarrow> string \<Rightarrow> (exn + unit) \<times> world" where
  "client_delete_object w k =
     (let w1 = logged (DeleteObject k) w in
      case fault w (DeleteObject k) of
        Some e \<Rightarrow> (Inl e, w1)
      | None \<Rightarrow> (Inr (), w1\<lparr>objects := store_remove [k] (objects w)\<rparr>))"

definition client_delete_objects :: "world \<Rightarrow> string list \<Rightarrow> (exn + unit) \<times> world" where
  "client_delete_objects w ks =
     (let w1 = logged (DeleteObjects ks) w in
      case fault w (DeleteObjects ks) of
        Some e \<Rightarrow> (Inl e, w1)
      | None \<Rightarrow> (Inr (), w1\<lparr>objects := store_remove ks (objects w)\<rparr>))"

definition client_generate_presigned_url ::
  "world \<Rightarrow> string \<Rightarrow> nat \<Rightarrow> (exn + string) \<times> world" where
  "client_generate_presigned_url w k expires_in =
     (let w1 = logged (GeneratePresignedUrl k expires_in) w in
      case fault w (GeneratePresignedUrl k expires_in) of
        Some e \<Rightarrow> (Inl e, w1)
      | None \<Rightarrow> (Inr (''https://s3/'' @ k @ ''?X-Amz-Expires='' @ token_of expires_in), w1))"

definition os_path_getsize :: "world \<Rightarrow> string \<Rightarrow> exn + nat" where
  "os_path_getsize w file_path =
     (case map_of (files w) file_path of
        None \<Rightarrow> Inl FileNotFoundError
      | Some body \<Rightarrow> Inr (length body))"

definition pytz_timezone :: "string \<Rightarrow> exn + string" where
  "pytz_timezone name =
     (if name \<in> set [''UTC'', ''Asia/Kolkata'', ''Europe/Berlin'', ''America/New_York'']
      then Inr name else Inl UnknownTimeZoneError)"

section \<open>\<open>src/timezone.py\<close>\<close>

definition change_timezone :: "world \<Rightarrow> datetime \<Rightarrow> string \<Rightarrow> datetime \<times> world" where
  "change_timezone w date0 timezone =
     (case pytz_timezone timezone of
        Inr tz \<Rightarrow> (date0\<lparr>tzname := tz\<rparr>, w)
      | Inl e \<Rightarrow> (date0, say (Msg_cannot_convert e) w))"

section \<open>\<open>src/bucket.py\<close>: the methods of \<open>Bucket\<close>\<close>

subsection \<open>\<open>get_file_metadata\<close>\<close>

text \<open>
  Returns the dict of the four metadata fields, or \<open>False\<close> (here \<open>None\<close>). The handler
  reads \<open>e.response\<close> of whatever exception it caught.
\<close>

definition get_file_metadata :: "world \<Rightarrow> string \<Rightarrow> (exn + metadata option) \<times> world" where
  "get_file_metadata w file_name =
     (case client_head_object w file_name of
        (Inr response, w1) \<Rightarrow>
          (let picked = \<lparr>LastModified = LastModified response,
                         ContentLength = ContentLength response,
                         ContentType = ContentType response, ETag = ETag response\<rparr>;
               (local_time, w2) = change_timezone w1 (LastModified picked) ''Asia/Kolkata''
           in (Inr (Some (picked\<lparr>LastModified := local_time\<rparr>)), w2))
      | (Inl e, w1) \<Rightarrow>
          (case response_code e of
             Inl raised \<Rightarrow> (Inl raised, w1)
           | Inr code \<Rightarrow>
               (Inr None,
                if code = ''404'' then say Msg_not_found w1
                else say (Msg_cannot_get_details e) w1)))"

subsection \<open>\<open>upload_file\<close>\<close>

definition upload_file ::
  "world \<Rightarrow> string \<Rightarrow> string option \<Rightarrow> bool \<Rightarrow> (exn + bool) \<times> world" where
  "upload_file w file_path file_name_arg replace =
     (let file_name = (case file_name_arg of None \<Rightarrow> basename file_path | Some n \<Rightarrow> n) in
      case os_path_getsize w file_path of
        Inl e \<Rightarrow>
          (if e = FileNotFoundError then (Inr False, say Msg_file_missing w) else (Inl e, w))
      | Inr sz \<Rightarrow>
          (case get_file_metadata (say (Msg_file file_name sz) w) file_name of
             (Inl e, w1) \<Rightarrow> (Inl e, w1)
           | (Inr found, w1) \<Rightarrow>
               (let w2 = (if found \<noteq> None then say Msg_same_name_exists w1 else w1) in
                if found \<noteq> None \<and> \<not> replace then (Inr False, w2)
                else
                  (case client_upload_file w2 file_path file_name of
                     (Inl e, w3) \<Rightarrow> (Inr False, say (Msg_cannot_upload e) w3)
                   | (Inr u, w3) \<Rightarrow> (Inr True, say Msg_blank (say Msg_uploaded w3))))))"

subsection \<open>\<open>get_object_list\<close>\<close>

text \<open>
  The method returns \<open>False\<close>, the number \<open>len(response['Contents'])\<close> (in probe mode,
  \<open>check_folder=True\<close>) or a list of objects.
\<close>

datatype listing = LFalse | LCount nat | LObjects "s3obj list"

text \<open>Python's truth value of such a result, and the comparison \<open>resp > 1\<close>.\<close>

fun truthy :: "listing \<Rightarrow> bool" where
  "truthy LFalse = False"
| "truthy (LCount n) = (n \<noteq> 0)"
| "truthy (LObjects objs) = (objs \<noteq> [])"

fun greater_than_one :: "listing \<Rightarrow> exn + bool" where
  "greater_than_one LFalse = Inr False"
| "greater_than_one (LCount n) = Inr (1 < n)"
| "greater_than_one (LObjects objs) = Inl TypeError"

text \<open>\<open>if folder_name:\<close> and \<open>if continuation_token:\<close> hold for a non-empty string only.\<close>

definition nonempty :: "string option \<Rightarrow> bool" where
  "nonempty s = (case s of None \<Rightarrow> False | Some t \<Rightarrow> t \<noteq> [])"

text \<open>
  The first statements of the loop body: a non-empty folder name is made to end in a slash.
\<close>

definition normalized :: "string option \<Rightarrow> string option" where
  "normalized folder_name =
     (if nonempty folder_name then map_option with_slash folder_name else folder_name)"

definition request_params :: "string option \<Rightarrow> string option \<Rightarrow> bool \<Rightarrow> list_request" where
  "request_params folder_name continuation_token check_folder =
     \<lparr>Prefix = (if nonempty folder_name then folder_name else None),
      ContinuationToken = (if nonempty continuation_token then continuation_token else None),
      MaxKeys = (if check_folder then Some 2 else None)\<rparr>"

text \<open>The code after the loop: the folder's own key, when it comes first, is dropped.\<close>

definition list_result :: "string option \<Rightarrow> s3obj list \<Rightarrow> world \<Rightarrow> (exn + listing) \<times> world" where
  "list_result folder_name object_list w =
     (if \<not> nonempty folder_name
      then (Inr (LObjects object_list), say (Msg_bucket_total (length object_list)) w)
      else
        (case object_list of
           [] \<Rightarrow> (Inl IndexError, w)
         | obj # rest \<Rightarrow>
             if Some (Key obj) = folder_name
             then (Inr (LObjects rest), say (Msg_folder_total (length object_list - 1)) w)
             else (Inr (LObjects object_list), say (Msg_folder_total (length object_list)) w)))"

text \<open>
  The \<open>while True\<close> loop, one iteration per unfolding, with the loop's variables as
  arguments. The store decides whether it ends, so the result is an option: \<open>None\<close> is a
  loop that runs forever.
\<close>

partial_function (option) object_list_loop ::
  "string option \<Rightarrow> bool \<Rightarrow> s3obj list \<Rightarrow> string option \<Rightarrow> world
     \<Rightarrow> ((exn + listing) \<times> world) option" where
  "object_list_loop folder_name_in check_folder object_list continuation_token w =
     (let folder_name = normalized folder_name_in in
      case client_list_objects_v2 w (request_params folder_name continuation_token check_folder) of
        (Inl e, w1) \<Rightarrow> Some (Inl e, w1)
      | (Inr response, w1) \<Rightarrow>
          if check_folder then
            (case Contents response of
               Some cs \<Rightarrow> Some (Inr (LCount (length cs)), say Msg_folder_present w1)
             | None \<Rightarrow> Some (Inr LFalse, say Msg_folder_absent w1))
          else if Contents response = None \<and> object_list = [] then
            Some (Inr LFalse, say (Msg_no_such_folder folder_name) w1)
          else
            (let extended = (case Contents response of
                               Some cs \<Rightarrow> object_list @ cs | None \<Rightarrow> object_list)
             in
             if IsTruncated response then
               object_list_loop folder_name check_folder extended
                 (NextContinuationToken response) (say Msg_token_present w1)
             else Some (list_result folder_name extended w1)))"

declare object_list_loop.simps [code]

definition get_object_list ::
  "world \<Rightarrow> string option \<Rightarrow> bool \<Rightarrow> ((exn + listing) \<times> world) option" where
  "get_object_list w folder_name check_folder =
     (case object_list_loop folder_name check_folder [] None w of
        None \<Rightarrow> None
      | Some (Inl e, w1) \<Rightarrow> Some (Inr LFalse, say (Msg_list_exception e) w1)
      | Some (Inr r, w1) \<Rightarrow> Some (Inr r, w1))"

subsection \<open>\<open>create_folder\<close>\<close>

definition create_folder ::
  "world \<Rightarrow> string \<Rightarrow> bool \<Rightarrow> ((exn + bool) \<times> world) option" where
  "create_folder w folder_name_in replace =
     (let folder_name = with_slash folder_name_in in
      case get_object_list w (Some folder_name) True of
        None \<Rightarrow> None
      | Some (Inl e, w1) \<Rightarrow> Some (Inl e, w1)
      | Some (Inr present, w1) \<Rightarrow>
          (let w2 = (if truthy present then say (Msg_already_present folder_name) w1 else w1) in
           if truthy present \<and> \<not> replace then Some (Inr True, w2)
           else
             (case client_put_object w2 folder_name of
                (Inl e, w3) \<Rightarrow> Some (Inr False, say (Msg_cannot_create e) w3)
              | (Inr u, w3) \<Rightarrow> Some (Inr True, say (Msg_folder_created folder_name) w3))))"

subsection \<open>\<open>delete_object\<close>\<close>

text \<open>
  The body of the \<open>try\<close> block first: \<open>Inr b\<close> is \<open>return b\<close>, \<open>Inl e\<close> an exception raised
  inside the block. \<open>delete_object\<close> adds the handler.
\<close>

definition delete_object_try :: "world \<Rightarrow> string \<Rightarrow> ((exn + bool) \<times> world) option" where
  "delete_object_try w object_name =
     (let remove = (\<lambda>w1.
            case client_delete_object w1 object_name of
              (Inl e, w2) \<Rightarrow> Some (Inl e, w2)
            | (Inr u, w2) \<Rightarrow> Some (Inr True, say (Msg_deleted object_name) w2))
      in
      if endswith object_name ''/'' then
        (case get_object_list w (Some object_name) True of
           None \<Rightarrow> None
         | Some (Inl e, w1) \<Rightarrow> Some (Inl e, w1)
         | Some (Inr resp, w1) \<Rightarrow>
             if \<not> truthy resp then Some (Inr False, w1)
             else
               (case greater_than_one resp of
                  Inl e \<Rightarrow> Some (Inl e, w1)
                | Inr True \<Rightarrow> Some (Inr False, say Msg_folder_contains_files w1)
                | Inr False \<Rightarrow> remove w1))
      else remove w)"

definition delete_object :: "world \<Rightarrow> string \<Rightarrow> ((exn + bool) \<times> world) option" where
  "delete_object w object_name =
     (case delete_object_try w object_name of
        None \<Rightarrow> None
      | Some (Inl e, w1) \<Rightarrow> Some (Inr False, say (Msg_cannot_delete e) w1)
      | Some (Inr b, w1) \<Rightarrow> Some (Inr b, w1))"

subsection \<open>\<open>move_file\<close>\<close>

text \<open>
  The handler of \<open>move_file\<close> reads \<open>e.response\<close> too. The value \<open>delete_object\<close> returns is
  not looked at.
\<close>

definition move_file_except :: "exn \<Rightarrow> world \<Rightarrow> (exn + bool) \<times> world" where
  "move_file_except e w =
     (case response_code e of
        Inl raised \<Rightarrow> (Inl raised, w)
      | Inr code \<Rightarrow>
          (Inr False,
           say (Msg_cannot_rename e) (if code = ''NoSuchKey'' then say Msg_no_such_file w else w)))"

definition move_file :: "world \<Rightarrow> string \<Rightarrow> string \<Rightarrow> ((exn + bool) \<times> world) option" where
  "move_file w old_name new_name =
     (case client_copy_object w old_name new_name of
        (Inl e, w1) \<Rightarrow> Some (move_file_except e w1)
      | (Inr u, w1) \<Rightarrow>
          (case delete_object w1 old_name of
             None \<Rightarrow> None
           | Some (Inl e, w2) \<Rightarrow> Some (move_file_except e w2)
           | Some (Inr ignored, w2) \<Rightarrow> Some (Inr True, say (Msg_moved old_name new_name) w2)))"

subsection \<open>\<open>get_file_link\<close>\<close>

text \<open>Returns the URL, or \<open>False\<close> (here \<open>None\<close>).\<close>

definition get_file_link :: "world \<Rightarrow> string \<Rightarrow> nat \<Rightarrow> (exn + string option) \<times> world" where
  "get_file_link w file_name expiration =
     (let attempt =
            (case get_file_metadata w file_name of
               (Inl e, w1) \<Rightarrow> (Inl e, w1)
             | (Inr None, w1) \<Rightarrow> (Inl (PyException ''File does not exists''), w1)
             | (Inr (Some found), w1) \<Rightarrow> client_generate_presigned_url w1 file_name expiration)
      in
      case attempt of
        (Inl e, w2) \<Rightarrow> (Inr None, say (Msg_cannot_link e) w2)
      | (Inr url, w2) \<Rightarrow> (Inr (Some url), w2))"

subsection \<open>\<open>delete_folder_data\<close>\<close>

definition delete_folder_data :: "world \<Rightarrow> string \<Rightarrow> ((exn + bool) \<times> world) option" where
  "delete_folder_data w folder_name_in =
     (let folder_name = with_slash folder_name_in;
          except = (\<lambda>e w1. Some (Inr False, say (Msg_cannot_delete_folder e) w1))
      in
      case get_object_list w (Some folder_name) False of
        None \<Rightarrow> None
      | Some (Inl e, w1) \<Rightarrow> except e w1
      | Some (Inr found, w1) \<Rightarrow>
          if \<not> truthy found then Some (Inr False, say Msg_empty_or_missing w1)
          else
            (case found of
               LObjects objs \<Rightarrow>
                 (case client_delete_objects w1 (map Key objs) of
                    (Inl e, w2) \<Rightarrow> except e w2
                  | (Inr u, w2) \<Rightarrow> Some (Inr True, say (Msg_folder_data_deleted folder_name) w2))
             | other \<Rightarrow> except TypeError w1))"

subsection \<open>\<open>move_folder\<close>\<close>

text \<open>The \<open>for obj in objects\<close> loop; an exception that leaves \<open>move_file\<close> ends it.\<close>

fun move_objects ::
  "string \<Rightarrow> string \<Rightarrow> s3obj list \<Rightarrow> world \<Rightarrow> ((exn + unit) \<times> world) option" where
  "move_objects old_name new_name [] w = Some (Inr (), w)"
| "move_objects old_name new_name (obj # objs) w =
     (case move_file w (Key obj) (py_replace1 old_name new_name (Key obj)) of
        None \<Rightarrow> None
      | Some (Inl e, w1) \<Rightarrow> Some (Inl e, w1)
      | Some (Inr ignored, w1) \<Rightarrow> move_objects old_name new_name objs w1)"

text \<open>
  The body of the \<open>try\<close> block. Iterating over \<open>False\<close> raises \<open>TypeError\<close>. The block has no
  \<open>return\<close>, so when it ends normally the method returns \<open>None\<close>: the result type is
  \<open>bool option\<close>, with \<open>None\<close> for Python's \<open>None\<close>.
\<close>

definition move_folder_try :: "world \<Rightarrow> string \<Rightarrow> string \<Rightarrow> ((exn + unit) \<times> world) option" where
  "move_folder_try w old_name new_name =
     (case create_folder w new_name False of
        None \<Rightarrow> None
      | Some (Inl e, w1) \<Rightarrow> Some (Inl e, w1)
      | Some (Inr False, w1) \<Rightarrow> Some (Inl (PyException ''New folder cannot be created''), w1)
      | Some (Inr True, w1) \<Rightarrow>
          (case get_object_list w1 (Some old_name) False of
             None \<Rightarrow> None
           | Some (Inl e, w2) \<Rightarrow> Some (Inl e, w2)
           | Some (Inr found, w2) \<Rightarrow>
               (case found of
                  LObjects objs \<Rightarrow>
                    (case move_objects old_name new_name objs w2 of
                       None \<Rightarrow> None
                     | Some (Inl e, w3) \<Rightarrow> Some (Inl e, w3)
                     | Some (Inr u, w3) \<Rightarrow>
                         (case delete_object w3 old_name of
                            None \<Rightarrow> None
                          | Some (Inl e, w4) \<Rightarrow> Some (Inl e, w4)
                          | Some (Inr False, w4) \<Rightarrow>
                              Some (Inl (PyException ''Cannot delete the old folder''), w4)
                          | Some (Inr True, w4) \<Rightarrow> Some (Inr (), w4)))
                | other \<Rightarrow> Some (Inl TypeError, w2))))"

definition move_folder ::
  "world \<Rightarrow> string \<Rightarrow> string \<Rightarrow> ((exn + bool option) \<times> world) option" where
  "move_folder w old_name_in new_name_in =
     (case move_folder_try w (with_slash old_name_in) (with_slash new_name_in) of
        None \<Rightarrow> None
      | Some (Inl e, w1) \<Rightarrow> Some (Inr (Some False), say (Msg_cannot_move e) w1)
      | Some (Inr u, w1) \<Rightarrow> Some (Inr None, w1))"

section \<open>Notions used in the statements\<close>

text \<open>
  What a listing may do to the world: it sends listing requests and prints, and nothing
  else. \<open>same_store w w'\<close> says that \<open>w'\<close> has the objects, the page size, the faults, the
  files and the clock of \<open>w\<close>; \<open>only_listed w w'\<close> says in addition that the requests made
  between \<open>w\<close> and \<open>w'\<close> are listing requests.
\<close>

fun is_listing :: "request \<Rightarrow> bool" where
  "is_listing (ListObjectsV2 req) = True"
| "is_listing r = False"

definition same_store :: "world \<Rightarrow> world \<Rightarrow> bool" where
  "same_store w w' =
     (objects w' = objects w \<and> page_size w' = page_size w \<and> fault w' = fault w \<and>
      files w' = files w \<and> clock w' = clock w)"

definition only_listed :: "world \<Rightarrow> world \<Rightarrow> bool" where
  "only_listed w w' =
     (same_store w w' \<and> (\<exists>rs. requests w' = requests w @ rs \<and> list_all is_listing rs))"

text \<open>
  What is observed of a method that has run: the value it returned (or the exception that
  left it), the keys in the store afterwards, the requests in the log and the lines
  printed. Each is \<open>None\<close> for a method that does not return.
\<close>

definition returned :: "('a \<times> world) option \<Rightarrow> 'a option" where
  "returned outcome = map_option fst outcome"

definition keys_after :: "('a \<times> world) option \<Rightarrow> string list option" where
  "keys_after outcome = map_option (\<lambda>(a, w). map Key (objects w)) outcome"

definition requests_after :: "('a \<times> world) option \<Rightarrow> request list option" where
  "requests_after outcome = map_option (\<lambda>(a, w). requests w) outcome"

definition printed_after :: "('a \<times> world) option \<Rightarrow> msg list option" where
  "printed_after outcome = map_option (\<lambda>(a, w). stdout w) outcome"

text \<open>Example worlds: a time stamp, an object with a key and a content, a bucket.\<close>

definition example_time :: datetime where
  "example_time = \<lparr>instant = 0, tzname = ''UTC''\<rparr>"

definition stored :: "string \<Rightarrow> string \<Rightarrow> s3obj" where
  "stored k body =
     \<lparr>LastModified = example_time, ContentLength = length body,
      ContentType = ''binary/octet-stream'', ETag = etag_of body, Key = k, Body = body\<rparr>"

definition bucket_of :: "s3obj list \<Rightarrow> nat \<Rightarrow> (request \<Rightarrow> exn option) \<Rightarrow> world" where
  "bucket_of objs n refuse =
     \<lparr>objects = objs, page_size = n, fault = refuse, requests = [],
      files = [(''/tmp/report.txt'', ''new text'')], stdout = [], clock = example_time\<rparr>"

text \<open>Five objects under \<open>a/\<close> and one outside it, in a store whose pages hold two keys.\<close>

definition five_files :: world where
  "five_files =
     bucket_of [stored ''a/1'' ''one'', stored ''a/2'' ''two'', stored ''a/3'' ''three'',
                stored ''b'' ''other'', stored ''a/4'' ''four'', stored ''a/5'' ''five''] 2
       (\<lambda>r. None)"

text \<open>
  The folder of the specification's example: the folder's own key \<open>a/\<close> and the objects
  \<open>a/x\<close> and \<open>a/y\<close>. Then the same folder with one object only.
\<close>

definition folder_a :: world where
  "folder_a = bucket_of [stored ''a/'' [], stored ''a/x'' ''1'', stored ''a/y'' ''22''] 1000 (\<lambda>r. None)"

definition folder_one :: world where
  "folder_one = bucket_of [stored ''a/'' [], stored ''a/x'' ''1''] 1000 (\<lambda>r. None)"

text \<open>A store that refuses every delete-object request, as a denied permission does.\<close>

fun deny_delete :: "request \<Rightarrow> exn option" where
  "deny_delete (DeleteObject k) = Some (ClientError ''AccessDenied'')"
| "deny_delete r = None"

text \<open>A client that cannot reach the store: every request fails before it is answered.\<close>

definition no_connection :: "request \<Rightarrow> exn option" where
  "no_connection r = Some (BotoCoreError ''EndpointConnectionError'')"

definition one_file_no_delete :: world where
  "one_file_no_delete = bucket_of [stored ''a'' ''text''] 1000 deny_delete"

definition folder_and_file :: world where
  "folder_and_file =
     bucket_of [stored ''a/'' [], stored ''a/x'' ''1'', stored ''a/y'' ''22'', stored ''b'' ''3'']
       1000 (\<lambda>r. None)"

definition unreachable :: world where
  "unreachable = bucket_of [stored ''report.txt'' ''old text''] 1000 no_connection"

text \<open>A bucket that holds \<open>report.txt\<close>; the local file \<open>/tmp/report.txt\<close> has another content.\<close>

definition one_report :: world where
  "one_report = bucket_of [stored ''report.txt'' ''old text'', stored ''b'' ''3''] 1000 (\<lambda>r. None)"

text \<open>
  The same bucket for a client that may write and may not read: the store refuses the
  head-object request with status 403 and accepts every other request.
\<close>

fun deny_head :: "request \<Rightarrow> exn option" where
  "deny_head (HeadObject k) = Some (ClientError ''403'')"
| "deny_head r = None"

definition report_no_head :: world where
  "report_no_head = bucket_of [stored ''report.txt'' ''old text'', stored ''b'' ''3''] 1000 deny_head"

text \<open>A folder that exists only as the prefix of one object: there is no key \<open>f/\<close>.\<close>

definition implicit_folder :: world where
  "implicit_folder = bucket_of [stored ''f/file'' ''data''] 1000 (\<lambda>r. None)"

text \<open>An empty folder \<open>e/\<close> next to the folder \<open>a/\<close> with two objects.\<close>

definition two_folders :: world where
  "two_folders =
     bucket_of [stored ''a/'' [], stored ''a/x'' ''1'', stored ''a/y'' ''22'', stored ''e/'' []]
       1000 (\<lambda>r. None)"

text \<open>A bucket in which the destination folder \<open>c/\<close> has an object and no key of its own.\<close>

definition destination_in_use :: world where
  "destination_in_use = bucket_of [stored ''c/z'' ''3''] 1000 (\<lambda>r. None)"

section \<open>Basic facts\<close>

lemma say_fields [simp]:
  "objects (say m w) = objects w" "page_size (say m w) = page_size w"
  "fault (say m w) = fault w" "requests (say m w) = requests w"
  "files (say m w) = files w" "clock (say m w) = clock w"
  "stdout (say m w) = stdout w @ [m]"
  by (simp_all add: say_def)

lemma logged_fields [simp]:
  "objects (logged r w) = objects w" "page_size (logged r w) = page_size w"
  "fault (logged r w) = fault w" "requests (logged r w) = requests w @ [r]"
  "files (logged r w) = files w" "clock (logged r w) = clock w"
  "stdout (logged r w) = stdout w"
  by (simp_all add: logged_def)

lemma bucket_of_fields [simp]:
  "objects (bucket_of objs n refuse) = objs" "page_size (bucket_of objs n refuse) = n"
  "fault (bucket_of objs n refuse) = refuse" "requests (bucket_of objs n refuse) = []"
  "stdout (bucket_of objs n refuse) = []" "clock (bucket_of objs n refuse) = example_time"
  "files (bucket_of objs n refuse) = [(''/tmp/report.txt'', ''new text'')]"
  by (simp_all add: bucket_of_def)

lemma Key_stored [simp]: "Key (stored k body) = k" "Body (stored k body) = body"
  by (simp_all add: stored_def)

lemma Key_new_object [simp]:
  "Key (new_object w k body) = k" "Body (new_object w k body) = body"
  "ETag (new_object w k body) = etag_of body"
  by (simp_all add: new_object_def)

lemma with_slash_idem [simp]: "with_slash (with_slash f) = with_slash f"
  by (simp add: with_slash_def endswith_def)

lemma with_slash_nonempty [simp]: "with_slash f \<noteq> []"
  by (auto simp: with_slash_def endswith_def)

lemma with_slash_ends: "endswith f ''/'' \<Longrightarrow> with_slash f = f"
  by (simp add: with_slash_def)

lemma endswith_slash: "endswith name ''/'' \<Longrightarrow> name \<noteq> [] \<and> with_slash name = name"
  by (auto simp: with_slash_def endswith_def)

lemma with_slash_a [simp]: "with_slash ''a/'' = ''a/''"
  by (simp add: with_slash_def endswith_def)

lemma with_slash_examples:
  "with_slash ''a'' = ''a/''" "with_slash ''e'' = ''e/''" "with_slash ''c'' = ''c/''"
  by (simp_all add: with_slash_def endswith_def)

lemma normalized_idem [simp]: "normalized (normalized fo) = normalized fo"
  by (cases fo) (simp_all add: normalized_def nonempty_def)

lemma nonempty_normalized [simp]: "nonempty (normalized fo) = nonempty fo"
  by (cases fo) (simp_all add: normalized_def nonempty_def)

lemma folder_given:
  "f \<noteq> [] \<Longrightarrow> nonempty (Some f)"
  "f \<noteq> [] \<Longrightarrow> normalized (Some f) = Some (with_slash f)"
  "nonempty (Some (with_slash f))"
  "normalized (Some (with_slash f)) = Some (with_slash f)"
  by (simp_all add: nonempty_def normalized_def)

lemma length_token_of [simp]: "length (token_of n) = n"
  by (simp add: token_of_def)

lemma token_of_empty [simp]: "(token_of n = []) = (n = 0)"
  by (simp add: token_of_def)

lemma startswith_self [simp]: "startswith p p"
  by (simp add: startswith_def)

lemma startswith_append: "startswith (p @ s) p"
  by (simp add: startswith_def)

lemma startswith_trans: "startswith a b \<Longrightarrow> startswith b c \<Longrightarrow> startswith a c"
  unfolding startswith_def
  by (metis append_eq_conv_conj append_take_drop_id append.assoc)

lemma startswith_longer:
  "startswith a b \<Longrightarrow> a \<noteq> b \<Longrightarrow> drop (length b) a \<noteq> []"
  unfolding startswith_def
  by (metis append_take_drop_id append_Nil2)

lemma endswith_with_slash: "endswith (with_slash f) ''/''"
  by (simp add: with_slash_def endswith_def)

lemma py_replace1_prefix:
  "startswith s old \<Longrightarrow> py_replace1 old new s = new @ drop (length old) s"
  by (cases s) (auto simp: startswith_def)

lemma only_listed_say [simp]: "only_listed w (say m w') = only_listed w w'"
  by (simp add: only_listed_def same_store_def)

lemma only_listed_say_left [simp]: "only_listed (say m w) w' = only_listed w w'"
  by (simp add: only_listed_def same_store_def)

lemma only_listed_logged: "only_listed w (logged (ListObjectsV2 req) w)"
  by (simp add: only_listed_def same_store_def)

lemma only_listed_trans: "only_listed a b \<Longrightarrow> only_listed b c \<Longrightarrow> only_listed a c"
  by (auto simp: only_listed_def same_store_def)

section \<open>Facts about the store\<close>

lemma store_remove_absent: "lookup k objs = None \<Longrightarrow> store_remove [k] objs = objs"
  by (induction objs) (auto simp: lookup_def store_remove_def split: if_splits)

lemma lookup_store_put: "lookup (Key obj) (store_put obj objs) = Some obj"
  by (induction objs) (auto simp: lookup_def store_put_def split: if_splits)

lemma lookup_store_put_other:
  "k \<noteq> Key obj \<Longrightarrow> lookup k (store_put obj objs) = lookup k objs"
proof -
  assume k: "k \<noteq> Key obj"
  have a: "find (\<lambda>x. Key x = k) (xs @ [obj]) = find (\<lambda>x. Key x = k) xs" for xs
    using k by (induction xs) auto
  have b: "find (\<lambda>x. Key x = k) (map (\<lambda>old. if Key old = Key obj then obj else old) xs)
             = find (\<lambda>x. Key x = k) xs" for xs
    using k by (induction xs) auto
  show ?thesis
    by (simp add: lookup_def[of k] store_put_def a b)
qed

lemma nothing_under_prefix:
  "under (Some p) objs = [] \<Longrightarrow> lookup p objs = None"
  by (induction objs) (auto simp: under_def lookup_def split: if_splits)

lemma nothing_under_prefix_key:
  "under (Some p) objs = [] \<Longrightarrow> startswith k p \<Longrightarrow> lookup k objs = None"
  by (induction objs) (auto simp: under_def lookup_def split: if_splits)

lemma lookup_append:
  "lookup k (xs @ ys) = (case lookup k xs of None \<Rightarrow> lookup k ys | Some x \<Rightarrow> Some x)"
  by (induction xs) (simp_all add: lookup_def)

lemma distinct_keys_under:
  "distinct (map Key objs) \<Longrightarrow> distinct (map Key (under p objs))"
  by (cases p) (simp_all add: under_def distinct_map_filter)

lemma first_key_not_in_rest:
  "distinct (map Key m) \<Longrightarrow> m \<noteq> [] \<Longrightarrow> Key (hd m) \<notin> set (map Key (tl m))"
  by (cases m) auto

text \<open>The Metadata Reader reports a key absent when the store answers and has no such key.\<close>

lemma metadata_of_absent_key:
  "lookup file_name (objects w) = None \<Longrightarrow> fault w (HeadObject file_name) = None
     \<Longrightarrow> fst (get_file_metadata w file_name) = Inr None"
  by (simp add: get_file_metadata_def client_head_object_def Let_def)

lemma metadata_of_present_key:
  "lookup file_name (objects w) = Some obj \<Longrightarrow> fault w (HeadObject file_name) = None
     \<Longrightarrow> \<exists>found. get_file_metadata w file_name = (Inr (Some found), logged (HeadObject file_name) w)"
  by (simp add: get_file_metadata_def client_head_object_def change_timezone_def
        pytz_timezone_def Let_def)

section \<open>The listing loop\<close>

text \<open>In probe mode the loop returns in its first iteration.\<close>

lemma object_list_loop_probe:
  "object_list_loop fo True acc tok w =
     (let req = request_params (normalized fo) tok True;
          w1 = logged (ListObjectsV2 req) w
      in case fault w (ListObjectsV2 req) of
           Some e \<Rightarrow> Some (Inl e, w1)
         | None \<Rightarrow>
             (case Contents (list_page w req) of
                Some cs \<Rightarrow> Some (Inr (LCount (length cs)), say Msg_folder_present w1)
              | None \<Rightarrow> Some (Inr LFalse, say Msg_folder_absent w1)))"
  by (subst object_list_loop.simps)
     (simp add: client_list_objects_v2_def Let_def split: option.splits)

lemma get_object_list_probe:
  "get_object_list w fo True =
     (let req = request_params (normalized fo) None True;
          w1 = logged (ListObjectsV2 req) w
      in case fault w (ListObjectsV2 req) of
           Some e \<Rightarrow> Some (Inr LFalse, say (Msg_list_exception e) w1)
         | None \<Rightarrow>
             (case Contents (list_page w req) of
                Some cs \<Rightarrow> Some (Inr (LCount (length cs)), say Msg_folder_present w1)
              | None \<Rightarrow> Some (Inr LFalse, say Msg_folder_absent w1)))"
  by (simp add: get_object_list_def object_list_loop_probe Let_def split: option.splits)

lemma probe_answered:
  assumes "endswith name ''/''"
    and "fault w (ListObjectsV2 \<lparr>Prefix = Some name, ContinuationToken = None,
                                  MaxKeys = Some 2\<rparr>) = None"
    and "2 \<le> page_size w"
    and "m = under (Some name) (objects w)"
  shows "\<exists>w1. only_listed w w1 \<and>
           get_object_list w (Some name) True =
             Some (Inr (if m = [] then LFalse else LCount (min 2 (length m))),
                   say (if m = [] then Msg_folder_absent else Msg_folder_present) w1)"
proof -
  let ?req = "\<lparr>Prefix = Some name, ContinuationToken = None, MaxKeys = Some 2\<rparr>"
  have req: "request_params (normalized (Some name)) None True = ?req"
    using endswith_slash[OF assms(1)] by (simp add: request_params_def folder_given)
  have "only_listed w (logged (ListObjectsV2 ?req) w)"
    by (rule only_listed_logged)
  moreover have "get_object_list w (Some name) True =
             Some (Inr (if m = [] then LFalse else LCount (min 2 (length m))),
                   say (if m = [] then Msg_folder_absent else Msg_folder_present)
                     (logged (ListObjectsV2 ?req) w))"
    using assms(2,3,4)
    by (simp add: get_object_list_probe req list_page_def Let_def min_def)
  ultimately show ?thesis by blast
qed

lemma probe_empty:
  assumes "under (Some (with_slash f)) (objects w) = []"
  shows "\<exists>w1. get_object_list w (Some (with_slash f)) True = Some (Inr LFalse, w1)
           \<and> only_listed w w1"
proof -
  let ?req = "request_params (normalized (Some (with_slash f))) None True"
  have "Contents (list_page w ?req) = None"
    using assms by (simp add: list_page_def request_params_def folder_given Let_def)
  then show ?thesis
    by (auto simp: get_object_list_probe Let_def only_listed_logged split: option.splits)
qed

text \<open>The loop normalizes the folder name itself, so it may be given normalized.\<close>

lemma loop_normalized:
  "object_list_loop fo cf acc tok w = object_list_loop (normalized fo) cf acc tok w"
  apply (subst object_list_loop.simps)
  apply (subst (2) object_list_loop.simps)
  apply (simp add: Let_def)
  done

lemma list_result_Inr: "m \<noteq> [] \<Longrightarrow> \<exists>r w'. list_result fo m w = (Inr r, w')"
  by (cases m) (auto simp: list_result_def)

lemma list_result_nonempty:
  "m \<noteq> [] \<Longrightarrow> list_result fo m w =
     (if nonempty fo \<and> Some (Key (hd m)) = fo
      then (Inr (LObjects (tl m)), say (Msg_folder_total (length m - 1)) w)
      else if nonempty fo then (Inr (LObjects m), say (Msg_folder_total (length m)) w)
      else (Inr (LObjects m), say (Msg_bucket_total (length m)) w))"
  by (cases m) (simp_all add: list_result_def)

lemma request_params_first:
  "request_params (normalized fo) None cf =
     \<lparr>Prefix = (if nonempty fo then normalized fo else None), ContinuationToken = None,
      MaxKeys = (if cf then Some 2 else None)\<rparr>"
  by (simp add: request_params_def nonempty_def[of None])

text \<open>
  The invariant of the loop on a store that answers every listing request and serves
  pages of at least one key: after \<open>start\<close> keys the accumulator holds the first \<open>start\<close>
  objects under the prefix, and the token says so. The induction is on the number of
  objects still to come.
\<close>

lemma loop_pages:
  assumes nf: "\<And>req. fault w (ListObjectsV2 req) = None"
    and ps: "0 < page_size w"
    and nfo: "normalized fo = fo"
    and m: "m = under (if nonempty fo then fo else None) (objects w)"
    and st: "start < length m"
    and acc: "acc = take start m"
    and tok: "tok = (if start = 0 then None else Some (token_of start))"
  shows "\<exists>w'. object_list_loop fo False acc tok w = Some (list_result fo m w') \<and> only_listed w w'"
  using nf ps m st acc tok
proof (induction "length m - start" arbitrary: start acc tok w rule: less_induct)
  case less
  define req where "req = request_params fo tok False"
  define w1 where "w1 = logged (ListObjectsV2 req) w"
  have req: "req = \<lparr>Prefix = (if nonempty fo then fo else None),
                     ContinuationToken = tok, MaxKeys = None\<rparr>"
    using less.prems by (simp add: req_def request_params_def nonempty_def)
  have start: "(case tok of None \<Rightarrow> 0 | Some t \<Rightarrow> length t) = start"
    using less.prems by simp
  have page: "list_page w req =
      \<lparr>Contents = Some (take (page_size w) (drop start m)),
       IsTruncated = (start + page_size w < length m),
       NextContinuationToken =
         (if start + page_size w < length m then Some (token_of (start + page_size w)) else None)\<rparr>"
    using less.prems start by (simp add: list_page_def req Let_def)
  have ext: "acc @ take (page_size w) (drop start m) = take (start + page_size w) m"
    using less.prems by (simp add: take_add)
  have unfold: "object_list_loop fo False acc tok w =
      (if start + page_size w < length m
       then object_list_loop fo False (take (start + page_size w) m)
              (Some (token_of (start + page_size w))) (say Msg_token_present w1)
       else Some (list_result fo (take (start + page_size w) m) w1))"
    apply (subst object_list_loop.simps)
    using less.prems(1) page ext
    apply (simp add: nfo client_list_objects_v2_def Let_def req_def[symmetric] w1_def[symmetric])
    done
  show ?case
  proof (cases "start + page_size w < length m")
    case True
    let ?w2 = "say Msg_token_present w1"
    have "\<exists>w'. object_list_loop fo False (take (start + page_size w) m)
              (Some (token_of (start + page_size w))) ?w2 = Some (list_result fo m w')
            \<and> only_listed ?w2 w'"
      apply (rule less.hyps[where start = "start + page_size w"])
      using less.prems True by (simp_all add: w1_def)
    then obtain w' where
      "object_list_loop fo False (take (start + page_size w) m)
              (Some (token_of (start + page_size w))) ?w2 = Some (list_result fo m w')"
      "only_listed ?w2 w'" by blast
    moreover have "only_listed w ?w2"
      by (simp add: w1_def only_listed_logged)
    ultimately show ?thesis
      using unfold True only_listed_trans by fastforce
  next
    case False
    then have "take (start + page_size w) m = m" by simp
    then show ?thesis
      using unfold False by (auto simp: w1_def only_listed_logged)
  qed
qed

lemma loop_empty:
  assumes "under (if nonempty fo then normalized fo else None) (objects w) = []"
  shows "\<exists>w'. get_object_list w fo False = Some (Inr LFalse, w') \<and> only_listed w w'"
proof -
  let ?req = "request_params (normalized fo) None False"
  have page: "Contents (list_page w ?req) = None"
    using assms by (simp add: list_page_def request_params_first Let_def)
  show ?thesis
    unfolding get_object_list_def
    apply (subst object_list_loop.simps)
    using page
    apply (auto simp: client_list_objects_v2_def Let_def only_listed_logged split: option.splits)
    done
qed

lemma get_object_list_pages:
  assumes nf: "\<And>req. fault w (ListObjectsV2 req) = None"
    and ps: "0 < page_size w"
    and m: "m = under (if nonempty fo then normalized fo else None) (objects w)"
    and ne: "m \<noteq> []"
  shows "\<exists>w'. get_object_list w fo False = Some (list_result (normalized fo) m w')
           \<and> only_listed w w'"
proof -
  have "\<exists>w'. object_list_loop (normalized fo) False [] None w
               = Some (list_result (normalized fo) m w') \<and> only_listed w w'"
    by (rule loop_pages[where start = 0]) (use assms in simp_all)
  then obtain w' where loop: "object_list_loop fo False [] None w
               = Some (list_result (normalized fo) m w')" and ol: "only_listed w w'"
    using loop_normalized[of fo False "[]" None w] by auto
  obtain r w'' where lr: "list_result (normalized fo) m w' = (Inr r, w'')"
    using ne list_result_Inr by blast
  have "get_object_list w fo False = Some (list_result (normalized fo) m w')"
    using loop lr by (simp add: get_object_list_def)
  then show ?thesis
    using ol by blast
qed

text \<open>
  A folder key under whose prefix the probe counts two keys is not deleted: \<open>delete_object\<close>
  returns \<open>False\<close> and has only listed.
\<close>

lemma delete_object_refuses_two_keys:
  assumes "endswith name ''/''"
    and "fault w (ListObjectsV2 \<lparr>Prefix = Some name, ContinuationToken = None,
                                  MaxKeys = Some 2\<rparr>) = None"
    and "2 \<le> page_size w"
    and "2 \<le> length (under (Some name) (objects w))"
  shows "\<exists>w'. delete_object w name = Some (Inr False, w') \<and> only_listed w w'"
proof -
  define m where "m = under (Some name) (objects w)"
  obtain w1 where w1: "only_listed w w1"
    and probe: "get_object_list w (Some name) True =
             Some (Inr (if m = [] then LFalse else LCount (min 2 (length m))),
                   say (if m = [] then Msg_folder_absent else Msg_folder_present) w1)"
    using probe_answered[OF assms(1,2,3) m_def] by blast
  have "2 \<le> length m"
    using assms(4) by (simp add: m_def)
  then show ?thesis
    using assms(1) probe w1
    by (auto simp: delete_object_def delete_object_try_def)
qed

section \<open>Running the methods on example worlds\<close>

text \<open>
  Two more readings of one iteration of the loop, for running the methods on example
  worlds: a listing that fits in one page, and a listing request the store refuses.
\<close>

lemma loop_one_page:
  assumes "fault w (ListObjectsV2 (request_params (normalized fo) tok False)) = None"
    and "\<not> IsTruncated (list_page w (request_params (normalized fo) tok False))"
  shows "object_list_loop fo False acc tok w =
     (let req = request_params (normalized fo) tok False;
          w1 = logged (ListObjectsV2 req) w;
          response = list_page w req
      in if Contents response = None \<and> acc = []
         then Some (Inr LFalse, say (Msg_no_such_folder (normalized fo)) w1)
         else Some (list_result (normalized fo)
                      (case Contents response of Some cs \<Rightarrow> acc @ cs | None \<Rightarrow> acc) w1))"
  by (subst object_list_loop.simps)
     (use assms in \<open>simp add: client_list_objects_v2_def Let_def\<close>)

lemma loop_refused:
  assumes "fault w (ListObjectsV2 (request_params (normalized fo) tok cf)) = Some e"
  shows "object_list_loop fo cf acc tok w =
           Some (Inl e, logged (ListObjectsV2 (request_params (normalized fo) tok cf)) w)"
  by (subst object_list_loop.simps)
     (use assms in \<open>simp add: client_list_objects_v2_def Let_def\<close>)

text \<open>The definitions that running a method on an example world unfolds.\<close>

lemmas run =
  get_object_list_def object_list_loop_probe loop_one_page loop_refused
  client_list_objects_v2_def client_head_object_def client_put_object_def
  client_upload_file_def client_copy_object_def client_delete_object_def
  client_delete_objects_def client_generate_presigned_url_def os_path_getsize_def
  list_page_def request_params_def normalized_def nonempty_def with_slash_def
  endswith_def startswith_def under_def list_result_def lookup_def store_put_def
  store_remove_def new_object_def token_of_def basename_def etag_of_def
  pytz_timezone_def change_timezone_def get_file_metadata_def upload_file_def
  create_folder_def delete_object_try_def delete_object_def move_file_except_def
  move_file_def get_file_link_def delete_folder_data_def move_folder_try_def
  move_folder_def Let_def returned_def keys_after_def requests_after_def printed_after_def

lemma folder_a_page: "page_size folder_a = 1000" "fault folder_a = (\<lambda>r. None)"
  by (simp_all add: folder_a_def)

lemma under_folder_a:
  "under (Some ''a/'') (objects folder_a)
     = [stored ''a/'' [], stored ''a/x'' ''1'', stored ''a/y'' ''22'']"
  by (simp add: folder_a_def under_def startswith_def)

lemma two_folders_fields:
  "page_size two_folders = 1000" "fault two_folders = (\<lambda>r. None)"
  "objects two_folders
     = [stored ''a/'' [], stored ''a/x'' ''1'', stored ''a/y'' ''22'', stored ''e/'' []]"
  by (simp_all add: two_folders_def)

lemma under_two_folders:
  "under (Some ''a/'') (objects two_folders)
     = [stored ''a/'' [], stored ''a/x'' ''1'', stored ''a/y'' ''22'']"
  "under (Some ''e/'') (objects two_folders) = [stored ''e/'' []]"
  "under (Some ''z/'') (objects two_folders) = []"
  by (simp_all add: two_folders_fields under_def startswith_def)

lemma folder_and_file_fields:
  "page_size folder_and_file = 1000" "fault folder_and_file = (\<lambda>r. None)"
  "objects folder_and_file
     = [stored ''a/'' [], stored ''a/x'' ''1'', stored ''a/y'' ''22'', stored ''b'' ''3'']"
  by (simp_all add: folder_and_file_def)

lemma under_folder_and_file:
  "under (Some ''a/'') (objects folder_and_file)
     = [stored ''a/'' [], stored ''a/x'' ''1'', stored ''a/y'' ''22'']"
  by (simp add: folder_and_file_fields under_def startswith_def)

lemma one_report_fields:
  "fault one_report = (\<lambda>r. None)"
  "objects one_report = [stored ''report.txt'' ''old text'', stored ''b'' ''3'']"
  by (simp_all add: one_report_def)

lemma one_report_page: "page_size one_report = 1000"
  by (simp add: one_report_def)

section \<open>The claims\<close>

subsection \<open>C1: a listing returns every object, whatever the page size\<close>

text \<open>
  Claim C1. Let the store answer every listing request and serve pages of at least one
  key, whatever the page size. Listing a folder (or, with no folder name, the bucket) under
  which the store holds the objects \<open>m\<close>, at least one, returns exactly \<open>m\<close>, in the store's
  order: every object once, none left out, however many pages \<open>m\<close> takes. The only key the
  method drops is the folder's own key when it comes first (claim C2), so \<open>N\<close> objects other
  than that one give a list of length \<open>N\<close>. The loop ends (the result is \<open>Some\<close>), and the
  requests it made are listing requests.
\<close>

theorem list_returns_every_object:
  assumes "\<forall>req. fault w (ListObjectsV2 req) = None"
    and "0 < page_size w"
    and "m = under (if nonempty fo then normalized fo else None) (objects w)"
    and "m \<noteq> []"
  shows "\<exists>w'. get_object_list w fo False =
            Some (Inr (LObjects (if nonempty fo \<and> Some (Key (hd m)) = normalized fo
                                 then tl m else m)), w')
          \<and> only_listed w w'"
proof -
  obtain w' where "get_object_list w fo False = Some (list_result (normalized fo) m w')"
    and "only_listed w w'"
    using get_object_list_pages[of w m fo] assms by auto
  then show ?thesis
    using assms(4) by (auto simp: list_result_nonempty)
qed

theorem list_returns_every_object_witness:
  "(\<forall>req. fault five_files (ListObjectsV2 req) = None) \<and> 0 < page_size five_files \<and>
   page_size five_files < length (under (Some ''a/'') (objects five_files)) \<and>
   (\<exists>w'. get_object_list five_files (Some ''a'') False =
       Some (Inr (LObjects [stored ''a/1'' ''one'', stored ''a/2'' ''two'',
                            stored ''a/3'' ''three'', stored ''a/4'' ''four'',
                            stored ''a/5'' ''five'']), w')
      \<and> only_listed five_files w')"
  using list_returns_every_object[of five_files
      "[stored ''a/1'' ''one'', stored ''a/2'' ''two'', stored ''a/3'' ''three'',
        stored ''a/4'' ''four'', stored ''a/5'' ''five'']" "Some ''a''"]
  by (simp add: five_files_def under_def startswith_def normalized_def nonempty_def
        with_slash_def endswith_def)

text \<open>
  What "the objects under the prefix" are: the stored objects whose key starts with the
  prefix, each as often as the store holds it, so with unique keys no key comes twice.
\<close>

lemma under_members:
  "set (under (Some p) objs) = {obj \<in> set objs. startswith (Key obj) p}"
  "set (under None objs) = set objs"
  by (simp_all add: under_def)

subsection \<open>C2: the folder's own key in a listing and in a probe\<close>

text \<open>
  Claim C2, as amended. Let the store answer every listing request and serve pages of at
  least one key, and let the first key under the folder be the folder's own key (the
  sentinel). Then the listing returns the objects under the folder without that first
  one, and the total it prints is their number, one less than the number of keys under
  the folder. In probe mode (\<open>check_folder=True\<close>) the sentinel is counted: the method
  returns the number of keys on the page of at most two keys that the store serves.
\<close>

theorem sentinel_dropped_from_list_not_from_probe:
  assumes "\<forall>req. fault w (ListObjectsV2 req) = None"
    and "0 < page_size w"
    and "f \<noteq> []"
    and "m = under (Some (with_slash f)) (objects w)"
    and "m \<noteq> []"
    and "Key (hd m) = with_slash f"
  shows "(\<exists>w'. get_object_list w (Some f) False = Some (Inr (LObjects (tl m)), w')
            \<and> last (stdout w') = Msg_folder_total (length m - 1))
       \<and> (\<exists>w'. get_object_list w (Some f) True =
                 Some (Inr (LCount (min (length m) (min 2 (page_size w)))), w'))"
proof
  obtain w1 where "get_object_list w (Some f) False
        = Some (list_result (normalized (Some f)) m w1)"
    using get_object_list_pages[of w m "Some f"] assms by (auto simp: folder_given)
  then show "\<exists>w'. get_object_list w (Some f) False = Some (Inr (LObjects (tl m)), w')
            \<and> last (stdout w') = Msg_folder_total (length m - 1)"
    using assms by (simp add: list_result_nonempty folder_given)
next
  have "take (min 2 (page_size w)) m \<noteq> []"
    using assms by simp
  then show "\<exists>w'. get_object_list w (Some f) True =
                 Some (Inr (LCount (min (length m) (min 2 (page_size w)))), w')"
    using assms
    by (simp add: get_object_list_probe request_params_def list_page_def Let_def folder_given)
qed

theorem sentinel_dropped_from_list_not_from_probe_witness:
  "(\<forall>req. fault folder_a (ListObjectsV2 req) = None) \<and> 0 < page_size folder_a \<and>
   (\<exists>w'. get_object_list folder_a (Some ''a/'') False
            = Some (Inr (LObjects [stored ''a/x'' ''1'', stored ''a/y'' ''22'']), w')
        \<and> last (stdout w') = Msg_folder_total 2) \<and>
   (\<exists>w'. get_object_list folder_a (Some ''a/'') True = Some (Inr (LCount 2), w'))"
proof -
  have h: "\<forall>req. fault folder_a (ListObjectsV2 req) = None" "0 < page_size folder_a"
    by (simp_all add: folder_a_def)
  show ?thesis
    using h sentinel_dropped_from_list_not_from_probe[of folder_a "''a/''"
      "[stored ''a/'' [], stored ''a/x'' ''1'', stored ''a/y'' ''22'']"]
    by (simp add: under_folder_a folder_a_page numeral_2_eq_2)
qed

text \<open>
  The claim as stated fails in probe mode. In \<open>folder_one\<close> the folder \<open>a/\<close> holds its own key
  and one object: the listing returns that one object, and the probe answers 2, the
  number of keys on the page it asked for, the folder's own key included.
\<close>

theorem probe_counts_the_sentinel:
  "returned (get_object_list folder_one (Some ''a/'') False)
      = Some (Inr (LObjects [stored ''a/x'' ''1'']))
   \<and> returned (get_object_list folder_one (Some ''a/'') True) = Some (Inr (LCount 2))"
  by (simp add: folder_one_def run)

subsection \<open>C3: a file move whose delete fails\<close>

text \<open>
  Claim C3 (the code does not do what the claim says). The store holds \<open>a\<close> and refuses
  delete-object. \<open>move_file\<close> copies \<open>a\<close> to \<open>b\<close>; \<open>delete_object\<close> catches the refusal, prints it
  and returns \<open>False\<close>; \<open>move_file\<close> does not look at that value, prints that the file was
  moved and returns \<open>True\<close>. Both keys are in the store and the method has reported success.
\<close>

theorem move_file_reports_success_when_delete_fails:
  "returned (move_file one_file_no_delete ''a'' ''b'') = Some (Inr True)
   \<and> keys_after (move_file one_file_no_delete ''a'' ''b'') = Some [''a'', ''b'']
   \<and> requests_after (move_file one_file_no_delete ''a'' ''b'')
        = Some [CopyObject ''a'' ''b'', DeleteObject ''a'']
   \<and> printed_after (move_file one_file_no_delete ''a'' ''b'')
        = Some [Msg_cannot_delete (ClientError ''AccessDenied''), Msg_moved ''a'' ''b'']"
  by (simp add: one_file_no_delete_def run)

text \<open>
  The same in general: once the copy has succeeded, whatever \<open>delete_object\<close> returns,
  \<open>move_file\<close> returns \<open>True\<close>.
\<close>

lemma move_file_ignores_delete:
  assumes "client_copy_object w old_name new_name = (Inr u, w1)"
    and "delete_object w1 old_name = Some (Inr deleted, w2)"
  shows "move_file w old_name new_name = Some (Inr True, say (Msg_moved old_name new_name) w2)"
  using assms by (simp add: move_file_def)

subsection \<open>C4: the batch of \<open>delete_folder_data\<close>\<close>

text \<open>
  Claim C4, as amended. Let the store answer every listing request and serve pages of at
  least one key, let \<open>m\<close> be the objects under the folder's prefix and \<open>content\<close> what the
  listing returns for it: \<open>m\<close> without its first object when that is the folder's own key.
  If \<open>content\<close> is empty (no key under the prefix, or the folder's own key alone), the method
  returns \<open>False\<close> and has only listed. Otherwise, when the store accepts the batch, the
  method returns \<open>True\<close> after one delete-objects request, made after the listing, for the
  keys of \<open>content\<close>, and the store has lost exactly those keys. Where keys are unique, the
  folder's own key, when it comes first, is not among them.
\<close>

theorem delete_folder_data_batch:
  assumes "\<forall>req. fault w (ListObjectsV2 req) = None"
    and "0 < page_size w"
    and "m = under (Some (with_slash f)) (objects w)"
    and "content = (if m \<noteq> [] \<and> Key (hd m) = with_slash f then tl m else m)"
    and "fault w (DeleteObjects (map Key content)) = None"
  shows "(content = [] \<longrightarrow>
            (\<exists>w'. delete_folder_data w f = Some (Inr False, w') \<and> only_listed w w'))
       \<and> (content \<noteq> [] \<longrightarrow>
            (\<exists>w1 w'. delete_folder_data w f = Some (Inr True, w') \<and> only_listed w w1
                \<and> requests w' = requests w1 @ [DeleteObjects (map Key content)]
                \<and> objects w' = store_remove (map Key content) (objects w)))
       \<and> (m \<noteq> [] \<and> Key (hd m) = with_slash f \<and> distinct (map Key (objects w)) \<longrightarrow>
            with_slash f \<notin> set (map Key content))"
proof (cases "m = []")
  case True
  then obtain w1 where "get_object_list w (Some (with_slash f)) False = Some (Inr LFalse, w1)"
    and "only_listed w w1"
    using loop_empty[of "Some (with_slash f)" w] assms(3) by (auto simp: folder_given)
  then show ?thesis
    using True assms(4) by (simp add: delete_folder_data_def)
next
  case False
  obtain w1 where l: "get_object_list w (Some (with_slash f)) False
        = Some (list_result (Some (with_slash f)) m w1)" and ol: "only_listed w w1"
    using get_object_list_pages[of w m "Some (with_slash f)"] assms(1,2,3) False
    by (auto simp: folder_given)
  have res: "list_result (Some (with_slash f)) m w1 =
      (Inr (LObjects content),
       say (Msg_folder_total (if Key (hd m) = with_slash f then length m - 1 else length m)) w1)"
    using False assms(4) by (simp add: list_result_nonempty folder_given)
  have same: "objects w1 = objects w" "fault w1 = fault w"
    using ol by (simp_all add: only_listed_def same_store_def)
  have a: "content = [] \<longrightarrow>
            (\<exists>w'. delete_folder_data w f = Some (Inr False, w') \<and> only_listed w w')"
    using l res ol by (auto simp: delete_folder_data_def)
  have b: "content \<noteq> [] \<longrightarrow>
            (\<exists>w1 w'. delete_folder_data w f = Some (Inr True, w') \<and> only_listed w w1
                \<and> requests w' = requests w1 @ [DeleteObjects (map Key content)]
                \<and> objects w' = store_remove (map Key content) (objects w))"
  proof
    assume ne: "content \<noteq> []"
    let ?w2 = "say (Msg_folder_total
                  (if Key (hd m) = with_slash f then length m - 1 else length m)) w1"
    let ?w3 = "say (Msg_folder_data_deleted (with_slash f))
           ((logged (DeleteObjects (map Key content)) ?w2)
              \<lparr>objects := store_remove (map Key content) (objects ?w2)\<rparr>)"
    have "delete_folder_data w f = Some (Inr True, ?w3)"
      using l res ne assms(5) same
      by (simp add: delete_folder_data_def client_delete_objects_def Let_def)
    moreover have "only_listed w ?w2" using ol by simp
    moreover have "requests ?w3 = requests ?w2 @ [DeleteObjects (map Key content)]"
      by simp
    moreover have "objects ?w3 = store_remove (map Key content) (objects w)"
      using same by simp
    ultimately show "\<exists>w1 w'. delete_folder_data w f = Some (Inr True, w') \<and> only_listed w w1
                \<and> requests w' = requests w1 @ [DeleteObjects (map Key content)]
                \<and> objects w' = store_remove (map Key content) (objects w)"
      by blast
  qed
  have c: "m \<noteq> [] \<and> Key (hd m) = with_slash f \<and> distinct (map Key (objects w)) \<longrightarrow>
            with_slash f \<notin> set (map Key content)"
    using assms(3,4) distinct_keys_under[of "objects w" "Some (with_slash f)"]
      first_key_not_in_rest[of m]
    by auto
  show ?thesis using a b c by blast
qed

theorem delete_folder_data_batch_witness:
  "(\<exists>w'. delete_folder_data two_folders ''e'' = Some (Inr False, w')
        \<and> only_listed two_folders w')
   \<and> (\<exists>w1 w'. delete_folder_data folder_and_file ''a'' = Some (Inr True, w')
        \<and> only_listed folder_and_file w1
        \<and> requests w' = requests w1 @ [DeleteObjects [''a/x'', ''a/y'']]
        \<and> objects w' = [stored ''a/'' [], stored ''b'' ''3''])
   \<and> ''a/'' \<notin> set [''a/x'', ''a/y'']"
proof -
  have e: "\<forall>req. fault two_folders (ListObjectsV2 req) = None" "0 < page_size two_folders"
    "[stored ''e/'' []] = under (Some (with_slash ''e'')) (objects two_folders)"
    by (simp_all add: two_folders_fields(1,2) under_two_folders with_slash_examples)
  have a: "\<forall>req. fault folder_and_file (ListObjectsV2 req) = None"
    "0 < page_size folder_and_file"
    "[stored ''a/'' [], stored ''a/x'' ''1'', stored ''a/y'' ''22'']
       = under (Some (with_slash ''a'')) (objects folder_and_file)"
    by (simp_all add: folder_and_file_fields(1,2) under_folder_and_file with_slash_examples)
  show ?thesis
    using delete_folder_data_batch[OF e, of "[]"]
      delete_folder_data_batch[OF a, of "[stored ''a/x'' ''1'', stored ''a/y'' ''22'']"]
    by (simp add: with_slash_examples two_folders_fields folder_and_file_fields
          store_remove_def)
qed

text \<open>
  The claim as stated fails: the batch does not hold the folder's own key. In
  \<open>folder_and_file\<close> the keys under \<open>a/\<close> are \<open>a/\<close>, \<open>a/x\<close> and \<open>a/y\<close>; the one delete-objects
  request names \<open>a/x\<close> and \<open>a/y\<close>, and afterwards the key \<open>a/\<close> is still in the store.
\<close>

theorem delete_folder_data_keeps_sentinel:
  "returned (delete_folder_data folder_and_file ''a/'') = Some (Inr True)
   \<and> requests_after (delete_folder_data folder_and_file ''a/'')
        = Some [ListObjectsV2 \<lparr>Prefix = Some ''a/'', ContinuationToken = None,
                               MaxKeys = None\<rparr>,
                DeleteObjects [''a/x'', ''a/y'']]
   \<and> keys_after (delete_folder_data folder_and_file ''a/'') = Some [''a/'', ''b'']"
  by (simp add: folder_and_file_def run)

subsection \<open>C5: deleting a folder key\<close>

text \<open>
  Claim C5 (the code does not do what the claim says). The folder \<open>f/\<close> of
  \<open>implicit_folder\<close> holds one object, \<open>f/file\<close>, and has no key of its own. The probe counts
  one key, the guard \<open>resp > 1\<close> lets the call through, the delete request for the key \<open>f/\<close>
  removes nothing, and \<open>delete_object\<close> prints that \<open>f/\<close> was deleted and returns \<open>True\<close>, where
  the claim and the method's docstring say that a folder with data is not deleted and the
  call fails with the guidance message. The content is still there.
\<close>

theorem delete_folder_with_content_succeeds:
  "returned (delete_object implicit_folder ''f/'') = Some (Inr True)
   \<and> keys_after (delete_object implicit_folder ''f/'') = Some [''f/file'']
   \<and> printed_after (delete_object implicit_folder ''f/'')
        = Some [Msg_folder_present, Msg_deleted ''f/'']"
  by (simp add: implicit_folder_def run)

text \<open>
  On the same folder the sequence the guidance message asks for does not work either:
  \<open>delete_folder_data\<close> removes the content, after which no key lies under the prefix and
  \<open>delete_object\<close> returns \<open>False\<close>.
\<close>

lemma purge_then_delete_fails_without_sentinel:
  "returned (delete_folder_data implicit_folder ''f/'') = Some (Inr True)
   \<and> keys_after (delete_folder_data implicit_folder ''f/'') = Some []
   \<and> returned (delete_object
         ((snd (the (delete_folder_data implicit_folder ''f/'')))) ''f/'') = Some (Inr False)"
  by (simp add: implicit_folder_def run)

text \<open>
  What no delete can do, whatever the key and whatever the store answers: the method
  returns (it neither raises nor loops), and the objects in the store afterwards are the
  objects before, or those without the key that was given. No other key is ever removed.
\<close>

lemma delete_object_removes_only_its_key:
  "\<exists>r w'. delete_object w name = Some (Inr r, w')
      \<and> (objects w' = objects w \<or> objects w' = store_remove [name] (objects w))"
  by (auto simp: delete_object_def delete_object_try_def get_object_list_probe
        client_delete_object_def Let_def
      split: option.splits bool.splits)

text \<open>
  What the guard does where the folder's own key is counted. Let the key end in a slash,
  let the store answer the probe and honour its cap of two keys, and let \<open>m\<close> be the objects
  under the prefix. If \<open>m\<close> is empty, \<open>delete_object\<close> returns \<open>False\<close> and has only listed. If \<open>m\<close>
  has two objects or more, it returns \<open>False\<close>, has only listed, and the last line printed
  is the guidance message. If \<open>m\<close> has exactly one object and the store answers the delete
  request, the method returns \<open>True\<close> and the store has lost the key given, and no other.
\<close>

lemma delete_folder_guard:
  assumes "endswith name ''/''"
    and "fault w (ListObjectsV2 \<lparr>Prefix = Some name, ContinuationToken = None,
                                  MaxKeys = Some 2\<rparr>) = None"
    and "2 \<le> page_size w"
    and "m = under (Some name) (objects w)"
  shows "(m = [] \<longrightarrow>
            (\<exists>w'. delete_object w name = Some (Inr False, w') \<and> only_listed w w'))
       \<and> (2 \<le> length m \<longrightarrow>
            (\<exists>w'. delete_object w name = Some (Inr False, w') \<and> only_listed w w'
                \<and> last (stdout w') = Msg_folder_contains_files))
       \<and> (length m = 1 \<and> fault w (DeleteObject name) = None \<longrightarrow>
            (\<exists>w'. delete_object w name = Some (Inr True, w')
                \<and> objects w' = store_remove [name] (objects w)))
       \<and> (\<exists>r w'. delete_object w name = Some (Inr r, w')
            \<and> (objects w' = objects w \<or> objects w' = store_remove [name] (objects w)))"
proof -
  obtain w1 where w1: "only_listed w w1"
    and probe: "get_object_list w (Some name) True =
             Some (Inr (if m = [] then LFalse else LCount (min 2 (length m))),
                   say (if m = [] then Msg_folder_absent else Msg_folder_present) w1)"
    using probe_answered[OF assms] by blast
  have same: "objects w1 = objects w" "fault w1 = fault w"
    using w1 by (simp_all add: only_listed_def same_store_def)
  have a: "m = [] \<longrightarrow>
            (\<exists>w'. delete_object w name = Some (Inr False, w') \<and> only_listed w w')"
    using assms(1) probe w1
    by (auto simp: delete_object_def delete_object_try_def)
  have b: "2 \<le> length m \<longrightarrow>
            (\<exists>w'. delete_object w name = Some (Inr False, w') \<and> only_listed w w'
                \<and> last (stdout w') = Msg_folder_contains_files)"
    using assms(1) probe w1
    by (auto simp: delete_object_def delete_object_try_def)
  have c: "length m = 1 \<and> fault w (DeleteObject name) = None \<longrightarrow>
            (\<exists>w'. delete_object w name = Some (Inr True, w')
                \<and> objects w' = store_remove [name] (objects w))"
    using assms(1) probe same
    by (auto simp: delete_object_def delete_object_try_def client_delete_object_def Let_def)
  show ?thesis
    using a b c delete_object_removes_only_its_key[of w name] by blast
qed

lemma delete_folder_guard_example:
  "(\<exists>w'. delete_object two_folders ''z/'' = Some (Inr False, w') \<and> only_listed two_folders w')
   \<and> (\<exists>w'. delete_object two_folders ''a/'' = Some (Inr False, w')
          \<and> only_listed two_folders w' \<and> last (stdout w') = Msg_folder_contains_files)
   \<and> (\<exists>w'. delete_object two_folders ''e/'' = Some (Inr True, w')
          \<and> objects w' = [stored ''a/'' [], stored ''a/x'' ''1'', stored ''a/y'' ''22''])"
proof -
  have e: "endswith ''z/'' ''/''" "endswith ''a/'' ''/''" "endswith ''e/'' ''/''"
    by (simp_all add: endswith_def)
  have p: "2 \<le> page_size two_folders" "\<And>q. fault two_folders q = None"
    by (simp_all add: two_folders_fields)
  show ?thesis
    using delete_folder_guard[OF e(1) p(2) p(1) under_two_folders(3)[symmetric]]
      delete_folder_guard[OF e(2) p(2) p(1) under_two_folders(1)[symmetric]]
      delete_folder_guard[OF e(3) p(2) p(1) under_two_folders(2)[symmetric]]
    by (simp add: p(2) two_folders_fields(3) store_remove_def)
qed

subsection \<open>C6: what the public methods return and raise\<close>

text \<open>
  Claim C6 (the code does not do what the claim says). A folder move that completes:
  the destination folder is created, both objects are moved, the source folder's key is
  deleted. The \<open>try\<close> block of \<open>move_folder\<close> has no \<open>return\<close>, so the method returns \<open>None\<close>, not
  \<open>True\<close>.
\<close>

theorem move_folder_completed_returns_None:
  "returned (move_folder folder_and_file ''a'' ''c'') = Some (Inr None)
   \<and> keys_after (move_folder folder_and_file ''a'' ''c'') = Some [''b'', ''c/'', ''c/x'', ''c/y'']
   \<and> printed_after (move_folder folder_and_file ''a'' ''c'')
        = Some [Msg_folder_absent, Msg_folder_created ''c/'', Msg_folder_total 2,
                Msg_deleted ''a/x'', Msg_moved ''a/x'' ''c/x'',
                Msg_deleted ''a/y'', Msg_moved ''a/y'' ''c/y'',
                Msg_folder_present, Msg_deleted ''a/'']"
  by (simp add: folder_and_file_def run)

text \<open>
  The other half of the claim fails too. When the client cannot reach the store, the
  exception has no \<open>response\<close> attribute; the handlers of \<open>get_file_metadata\<close> and \<open>move_file\<close>
  read it, and the \<open>AttributeError\<close> leaves \<open>get_file_metadata\<close>, \<open>upload_file\<close> (which calls it
  outside any \<open>try\<close>) and \<open>move_file\<close>.
\<close>

lemma exception_leaves_public_methods:
  "fst (get_file_metadata unreachable ''report.txt'') = Inl AttributeError"
  "fst (upload_file unreachable ''/tmp/report.txt'' None True) = Inl AttributeError"
  "returned (move_file unreachable ''report.txt'' ''r.txt'') = Some (Inl AttributeError)"
  by (simp_all add: unreachable_def no_connection_def run)

subsection \<open>C7: uploading to a key that exists\<close>

text \<open>
  Claim C7 (the code does not do what the claim says). The store of \<open>report_no_head\<close> holds
  \<open>report.txt\<close> and refuses the metadata probe with status 403. \<open>get_file_metadata\<close> catches
  the refusal and returns \<open>False\<close>, as it does for a key that is absent; \<open>upload_file\<close> takes
  the key for absent and, with \<open>replace=False\<close>, transfers the local file and returns \<open>True\<close>.
  The object that existed has been overwritten, where the claim and the method's docstring
  (\<open>replace\<close>: "False then does not replace") say that the upload fails and transfers
  nothing.
\<close>

theorem upload_overwrites_when_probe_refused:
  "fst (upload_file report_no_head ''/tmp/report.txt'' None False) = Inr True
   \<and> requests (snd (upload_file report_no_head ''/tmp/report.txt'' None False))
        = [HeadObject ''report.txt'', UploadFile ''/tmp/report.txt'' ''report.txt'']
   \<and> map Body (objects report_no_head) = [''old text'', ''3'']
   \<and> map Body (objects (snd (upload_file report_no_head ''/tmp/report.txt'' None False)))
        = [''new text'', ''3'']
   \<and> stdout (snd (upload_file report_no_head ''/tmp/report.txt'' None False))
        = [Msg_file ''report.txt'' 8, Msg_cannot_get_details (ClientError ''403''),
           Msg_uploaded, Msg_blank]"
  by (simp add: report_no_head_def run)

text \<open>
  Where the store answers the probe, the guard holds. Let the key the upload resolves to
  (the given name, or the base name of the path) be in the store, and let the store answer
  the metadata probe. With \<open>replace=False\<close> the method returns \<open>False\<close>; the only request it
  has made, if any, is the probe, so nothing was transferred, and the objects in the store
  (contents and ETags) are what they were. With \<open>replace=True\<close>, a local file that exists
  and a store that accepts the transfer, the method returns \<open>True\<close>, the object under the key
  has the file's content and its ETag, and every other key is as it was.
\<close>

lemma upload_duplicate_guard:
  assumes "file_name = (case file_name_arg of None \<Rightarrow> basename file_path | Some n \<Rightarrow> n)"
    and "lookup file_name (objects w) = Some old"
    and "fault w (HeadObject file_name) = None"
  shows "(\<exists>w'. upload_file w file_path file_name_arg False = (Inr False, w')
            \<and> objects w' = objects w
            \<and> (requests w' = requests w \<or> requests w' = requests w @ [HeadObject file_name]))
       \<and> (map_of (files w) file_path = Some body
            \<and> fault w (UploadFile file_path file_name) = None \<longrightarrow>
          (\<exists>w'. upload_file w file_path file_name_arg True = (Inr True, w')
            \<and> lookup file_name (objects w') = Some (new_object w file_name body)
            \<and> (\<forall>k. k \<noteq> file_name \<longrightarrow> lookup k (objects w') = lookup k (objects w))))"
proof -
  show ?thesis
    using assms(2,3) lookup_store_put[of "new_object w file_name body" "objects w"]
      lookup_store_put_other[of _ "new_object w file_name body" "objects w"]
    unfolding upload_file_def assms(1)[symmetric]
    by (simp add: os_path_getsize_def get_file_metadata_def client_head_object_def
          change_timezone_def pytz_timezone_def client_upload_file_def Let_def new_object_def
        split: option.splits)
qed

lemma upload_duplicate_guard_example:
  "basename ''/tmp/report.txt'' = ''report.txt''
   \<and> lookup ''report.txt'' (objects one_report) = Some (stored ''report.txt'' ''old text'')
   \<and> fault one_report (HeadObject ''report.txt'') = None
   \<and> map_of (files one_report) ''/tmp/report.txt'' = Some ''new text''
   \<and> fault one_report (UploadFile ''/tmp/report.txt'' ''report.txt'') = None
   \<and> (\<exists>w'. upload_file one_report ''/tmp/report.txt'' None False = (Inr False, w')
          \<and> objects w' = objects one_report)
   \<and> (\<exists>w'. upload_file one_report ''/tmp/report.txt'' None True = (Inr True, w')
          \<and> lookup ''report.txt'' (objects w')
               = Some (new_object one_report ''report.txt'' ''new text''))"
proof -
  have h: "''report.txt'' = (case None of None \<Rightarrow> basename ''/tmp/report.txt'' | Some n \<Rightarrow> n)"
    "lookup ''report.txt'' (objects one_report) = Some (stored ''report.txt'' ''old text'')"
    "fault one_report (HeadObject ''report.txt'') = None"
    by (simp_all add: basename_def one_report_def lookup_def)
  have g: "map_of (files one_report) ''/tmp/report.txt'' = Some ''new text''"
    "fault one_report (UploadFile ''/tmp/report.txt'' ''report.txt'') = None"
    by (simp_all add: one_report_def)
  show ?thesis
    using h g upload_duplicate_guard[OF h, where body = "''new text''"]
    by auto
qed

subsection \<open>C8: deleting an absent file twice\<close>

text \<open>
  Claim C8. Let \<open>k\<close> be a file key (not ending in a slash) that the store does not hold,
  and let the store answer the delete request. Then \<open>delete_object\<close> returns \<open>True\<close>, a second
  call on the same key returns \<open>True\<close> too, and the objects in the store are the same after
  each call.
\<close>

theorem delete_absent_file_twice:
  assumes "\<not> endswith k ''/''"
    and "lookup k (objects w) = None"
    and "fault w (DeleteObject k) = None"
  shows "\<exists>w1 w2. delete_object w k = Some (Inr True, w1) \<and> objects w1 = objects w
           \<and> delete_object w1 k = Some (Inr True, w2) \<and> objects w2 = objects w"
  using assms
  by (simp add: delete_object_def delete_object_try_def client_delete_object_def Let_def
        store_remove_absent)

theorem delete_absent_file_twice_witness:
  "\<not> endswith ''a/z'' ''/'' \<and> lookup ''a/z'' (objects folder_a) = None
   \<and> fault folder_a (DeleteObject ''a/z'') = None
   \<and> (\<exists>w1 w2. delete_object folder_a ''a/z'' = Some (Inr True, w1)
           \<and> objects w1 = objects folder_a
           \<and> delete_object w1 ''a/z'' = Some (Inr True, w2) \<and> objects w2 = objects folder_a)"
proof -
  have h: "\<not> endswith ''a/z'' ''/''" "lookup ''a/z'' (objects folder_a) = None"
    "fault folder_a (DeleteObject ''a/z'') = None"
    by (simp_all add: endswith_def folder_a_def lookup_def)
  show ?thesis
    using h delete_absent_file_twice[OF h] by simp
qed

subsection \<open>C9: the link is gated on the metadata probe\<close>

text \<open>
  Claim C9. The requests \<open>get_file_link\<close> makes are the metadata probe and, only when the
  probe has returned metadata, the request for a signed URL after it. When the Metadata
  Reader reports the key absent (or fails in any other way), the method has returned
  failure (\<open>False\<close>, here \<open>None\<close>) and the request for a signed URL was never made.
\<close>

theorem link_requested_only_after_metadata:
  "(if \<exists>found. fst (get_file_metadata w file_name) = Inr (Some found)
    then requests (snd (get_file_link w file_name expiration))
           = requests w @ [HeadObject file_name, GeneratePresignedUrl file_name expiration]
    else fst (get_file_link w file_name expiration) = Inr None
       \<and> requests (snd (get_file_link w file_name expiration))
           = requests w @ [HeadObject file_name])"
  by (simp add: get_file_link_def get_file_metadata_def client_head_object_def
        client_generate_presigned_url_def change_timezone_def pytz_timezone_def Let_def
      split: option.splits sum.splits)

theorem link_requested_only_after_metadata_witness:
  "fst (get_file_link folder_a ''a/z'' 3600) = Inr None
   \<and> requests (snd (get_file_link folder_a ''a/z'' 3600)) = [HeadObject ''a/z'']"
proof -
  have "fst (get_file_metadata folder_a ''a/z'') = Inr None"
    by (rule metadata_of_absent_key) (simp_all add: folder_a_def lookup_def)
  then show ?thesis
    using link_requested_only_after_metadata[of folder_a "''a/z''" 3600]
    by (simp add: folder_a_def)
qed

subsection \<open>C10: a folder move from a source that does not exist\<close>

text \<open>
  Claim C10, as amended. Let no key lie under the source prefix and none under the
  destination prefix, let the destination's key differ from the source's, and let the
  store accept the write of the destination's key. Where the destination's key lies under
  the source prefix (a destination inside the source), let the store moreover answer every
  request and serve pages of two keys or more. Then \<open>move_folder\<close> returns \<open>False\<close>, and the
  store holds what it held and, after it, the new, empty object under the destination's
  key: the failed move has left the destination folder behind. For a destination inside
  the source one more object follows it, the copy of the new object that the loop over the
  source's listing has made, under the key in which the source prefix is replaced by the
  destination prefix.
\<close>

theorem failed_move_leaves_new_folder:
  assumes "under (Some (with_slash old_name)) (objects w) = []"
    and "under (Some (with_slash new_name)) (objects w) = []"
    and "fault w (PutObject (with_slash new_name)) = None"
    and "with_slash new_name \<noteq> with_slash old_name"
    and "startswith (with_slash new_name) (with_slash old_name)
           \<longrightarrow> 2 \<le> page_size w \<and> (\<forall>r. fault w r = None)"
  shows "\<exists>w'. move_folder w old_name new_name = Some (Inr (Some False), w')
           \<and> objects w' =
               objects w @ new_object w (with_slash new_name) [] #
                 (if startswith (with_slash new_name) (with_slash old_name)
                  then [new_object w (py_replace1 (with_slash old_name) (with_slash new_name)
                                        (with_slash new_name)) []]
                  else [])"
proof -
  let ?new = "with_slash new_name" and ?old = "with_slash old_name"
  let ?S = "new_object w ?new []"
  obtain w1 where probe: "get_object_list w (Some ?new) True = Some (Inr LFalse, w1)"
    and w1: "only_listed w w1"
    using probe_empty[OF assms(2)] by blast
  have same1: "objects w1 = objects w" "fault w1 = fault w" "clock w1 = clock w"
    "page_size w1 = page_size w"
    using w1 by (simp_all add: only_listed_def same_store_def)
  let ?w2 = "say (Msg_folder_created ?new)
      ((logged (PutObject ?new) w1)\<lparr>objects := objects w @ [?S]\<rparr>)"
  have created: "create_folder w ?new False = Some (Inr True, ?w2)"
    using probe same1 assms(3) nothing_under_prefix[OF assms(2)]
    by (simp add: create_folder_def client_put_object_def store_put_def new_object_def Let_def)
  show ?thesis
  proof (cases "startswith ?new ?old")
    case False
    then have "under (Some ?old) (objects ?w2) = []"
      using assms(1) by (simp add: under_def)
    then obtain w3 where listed: "get_object_list ?w2 (Some ?old) False = Some (Inr LFalse, w3)"
      and w3: "only_listed ?w2 w3"
      using loop_empty[of "Some ?old" ?w2] by (auto simp: folder_given)
    have "move_folder w old_name new_name
            = Some (Inr (Some False), say (Msg_cannot_move TypeError) w3)"
      using created listed by (simp add: move_folder_def move_folder_try_def)
    moreover have "objects w3 = objects w @ [?S]"
      using w3 by (simp add: only_listed_def same_store_def)
    ultimately show ?thesis
      using False by simp
  next
    case True
    define k2 where "k2 = py_replace1 ?old ?new ?new"
    let ?C = "new_object w k2 []"
    have ps: "2 \<le> page_size w"
      using assms(5) True by simp
    have nf: "fault w r = None" for r
      using assms(5) True by simp
    have k2eq: "k2 = ?new @ drop (length ?old) ?new"
      using True by (simp add: k2_def py_replace1_prefix)
    have k2new: "startswith k2 ?new" "k2 \<noteq> ?new"
      using startswith_longer[OF True assms(4)] by (simp_all add: k2eq startswith_append)
    have k2old: "startswith k2 ?old"
      using k2new(1) True by (rule startswith_trans)
    have "under (Some ?old) (objects ?w2) = [?S]"
      using assms(1) True by (simp add: under_def)
    then obtain w3 where listed: "get_object_list ?w2 (Some ?old) False
          = Some (list_result (normalized (Some ?old)) [?S] w3)" and w3: "only_listed ?w2 w3"
      using get_object_list_pages[of ?w2 "[?S]" "Some ?old"] nf ps same1
      by (auto simp: folder_given)
    have lr: "list_result (normalized (Some ?old)) [?S] w3
          = (Inr (LObjects [?S]), say (Msg_folder_total 1) w3)"
      using assms(4) by (simp add: list_result_nonempty folder_given)
    let ?w3 = "say (Msg_folder_total 1) w3"
    have same3: "objects w3 = objects w @ [?S]" "fault w3 = fault w" "clock w3 = clock w"
      "page_size w3 = page_size w"
      using w3 same1 by (simp_all add: only_listed_def same_store_def)
    have lookS: "lookup ?new (objects w @ [?S]) = Some ?S"
      using nothing_under_prefix[OF assms(2)] by (simp add: lookup_append) (simp add: lookup_def)
    have lookC: "lookup k2 (objects w @ [?S]) = None"
      using nothing_under_prefix_key[OF assms(2) k2new(1)] k2new(2)
      by (simp add: lookup_append) (simp add: lookup_def)
    let ?w4 = "(logged (CopyObject ?new k2) ?w3)\<lparr>objects := objects w @ [?S, ?C]\<rparr>"
    have copy: "client_copy_object ?w3 ?new k2 = (Inr (), ?w4)"
      using nf same3 lookS lookC
      by (simp add: client_copy_object_def store_put_def Let_def new_object_def)
    have "under (Some ?new) (objects ?w4) = [?S, ?C]"
      using assms(2) k2new(1) by (simp add: under_def)
    then obtain w5 where del1: "delete_object ?w4 ?new = Some (Inr False, w5)"
      and w5: "only_listed ?w4 w5"
      using delete_object_refuses_two_keys[of ?new ?w4] nf ps same3
      by (auto simp: endswith_with_slash)
    let ?w6 = "say (Msg_moved ?new k2) w5"
    have moved: "move_objects ?old ?new [?S] ?w3 = Some (Inr (), ?w6)"
      using copy del1 by (simp add: move_file_def k2_def)
    have same6: "objects w5 = objects w @ [?S, ?C]" "fault w5 = fault w"
      "page_size w5 = page_size w"
      using w5 same3 by (simp_all add: only_listed_def same_store_def)
    have "under (Some ?old) (objects ?w6) = [?S, ?C]"
      using assms(1) True k2old same6(1) by (simp add: under_def)
    then obtain w7 where del2: "delete_object ?w6 ?old = Some (Inr False, w7)"
      and w7: "only_listed ?w6 w7"
      using delete_object_refuses_two_keys[of ?old ?w6] nf ps same6
      by (auto simp: endswith_with_slash)
    have "objects w7 = objects w @ [?S, ?C]"
      using w7 same6 by (simp add: only_listed_def same_store_def)
    moreover have "move_folder w old_name new_name = Some (Inr (Some False),
        say (Msg_cannot_move (PyException ''Cannot delete the old folder'')) w7)"
      using created listed lr moved del2 by (simp add: move_folder_def move_folder_try_def)
    ultimately show ?thesis
      using True by (simp add: k2_def)
  qed
qed

text \<open>
  Two moves from the folder \<open>a/\<close>, which \<open>one_report\<close> does not have: to \<open>c/\<close>, and to
  \<open>a/b/\<close> inside the source.
\<close>

theorem failed_move_leaves_new_folder_witness:
  "under (Some (with_slash ''a'')) (objects one_report) = []
   \<and> under (Some (with_slash ''c'')) (objects one_report) = []
   \<and> under (Some (with_slash ''a/b'')) (objects one_report) = []
   \<and> \<not> startswith (with_slash ''c'') (with_slash ''a'')
   \<and> startswith (with_slash ''a/b'') (with_slash ''a'')
   \<and> (\<exists>w'. move_folder one_report ''a'' ''c'' = Some (Inr (Some False), w')
         \<and> map Key (objects w') = [''report.txt'', ''b'', ''c/''])
   \<and> (\<exists>w'. move_folder one_report ''a'' ''a/b'' = Some (Inr (Some False), w')
         \<and> map Key (objects w') = [''report.txt'', ''b'', ''a/b/'', ''a/b/b/''])"
proof -
  have s: "with_slash ''a'' = ''a/''" "with_slash ''c'' = ''c/''" "with_slash ''a/b'' = ''a/b/''"
    by (simp_all add: with_slash_def endswith_def)
  have sw: "\<not> startswith ''c/'' ''a/''" "startswith ''a/b/'' ''a/''"
    by (simp_all add: startswith_def)
  have c: "under (Some (with_slash ''a'')) (objects one_report) = []"
    "under (Some (with_slash ''c'')) (objects one_report) = []"
    "fault one_report (PutObject (with_slash ''c'')) = None"
    "with_slash ''c'' \<noteq> with_slash ''a''"
    "startswith (with_slash ''c'') (with_slash ''a'')
       \<longrightarrow> 2 \<le> page_size one_report \<and> (\<forall>r. fault one_report r = None)"
    by (simp_all add: one_report_fields s sw under_def startswith_def)
  have n: "under (Some (with_slash ''a/b'')) (objects one_report) = []"
    "fault one_report (PutObject (with_slash ''a/b'')) = None"
    "with_slash ''a/b'' \<noteq> with_slash ''a''"
    "startswith (with_slash ''a/b'') (with_slash ''a'')
       \<longrightarrow> 2 \<le> page_size one_report \<and> (\<forall>r. fault one_report r = None)"
    by (simp_all add: one_report_fields one_report_page s under_def startswith_def)
  have "\<exists>w'. move_folder one_report ''a'' ''c'' = Some (Inr (Some False), w')
         \<and> map Key (objects w') = [''report.txt'', ''b'', ''c/'']"
    using failed_move_leaves_new_folder[OF c]
    by (auto simp: s sw one_report_fields(2))
  moreover have "\<exists>w'. move_folder one_report ''a'' ''a/b'' = Some (Inr (Some False), w')
         \<and> map Key (objects w') = [''report.txt'', ''b'', ''a/b/'', ''a/b/b/'']"
    using failed_move_leaves_new_folder[OF c(1) n]
    by (auto simp: s sw one_report_fields(2))
  ultimately show ?thesis
    using c(1,2) n(1) by (simp add: s sw)
qed

text \<open>
  The claim as stated fails when the destination prefix already has a key and the store
  answers the probe: \<open>create_folder\<close> finds the folder present and writes nothing, the move
  fails on the missing source, and the store is what it was. No destination key \<open>c/\<close> has
  been left behind.
\<close>

theorem failed_move_into_used_folder_changes_nothing:
  "returned (move_folder destination_in_use ''a'' ''c'') = Some (Inr (Some False))
   \<and> keys_after (move_folder destination_in_use ''a'' ''c'') = Some [''c/z'']
   \<and> requests_after (move_folder destination_in_use ''a'' ''c'')
        = Some [ListObjectsV2 \<lparr>Prefix = Some ''c/'', ContinuationToken = None,
                               MaxKeys = Some 2\<rparr>,
                ListObjectsV2 \<lparr>Prefix = Some ''a/'', ContinuationToken = None,
                               MaxKeys = None\<rparr>]"
  by (simp add: destination_in_use_def run)

text \<open>
  Nor does it hold when the destination is the source itself: the new key \<open>a/\<close> is what
  the listing of the source then finds, the final \<open>delete_object\<close> removes it again, and
  \<open>move_folder\<close> returns \<open>None\<close> with the store as it was.
\<close>

lemma move_folder_onto_itself:
  "returned (move_folder one_report ''a'' ''a'') = Some (Inr None)
   \<and> keys_after (move_folder one_report ''a'' ''a'') = Some [''report.txt'', ''b'']"
  by (simp add: one_report_def run)

end
